theory Spec2Isabelle
  imports Main "HOL-Library.Sublist" "HOL-Library.Multiset"
begin

section \<open>Python values, strings and errors\<close>

text \<open>
  A Python \<open>str\<close> is a \<open>string\<close>: a list of characters. The attribute values of the
  sample data are strings and integers. A dictionary whose order is never observed (an
  attribute mapping) is a map; a dictionary that is iterated (the node table) is an
  association list in insertion order. \<open>d.get(k)\<close> is the map itself: \<open>None\<close> is
  Python's \<open>None\<close>.
\<close>

datatype pyval = PStr string | PInt int

datatype py_error = KeyError | TypeError | NetworkXError

type_synonym node_data = "string \<rightharpoonup> string"
type_synonym edge_data = "string \<rightharpoonup> pyval"

text \<open>\<open>needle in hay\<close> on two strings: the needle starts at some position of the hay.\<close>

primrec substr :: "string \<Rightarrow> string \<Rightarrow> bool" where
  "substr needle [] = (needle = [])"
| "substr needle (c # cs) = (prefix needle (c # cs) \<or> substr needle cs)"

section \<open>The graph (kg.py)\<close>

text \<open>
  The state of a \<open>networkx.MultiDiGraph\<close>, which is not part of the repository: the node
  table \<open>G._node\<close> in insertion order, and the edges \<open>(u, v, key, data)\<close> in insertion
  order. The adjacency tables \<open>G._succ[u]\<close> and \<open>G._pred[v]\<close> are dictionaries keyed by
  neighbour, each holding the dictionary of the parallel edges by key; no edge is ever
  removed, so their iteration order is the order in which the neighbours, and under each
  neighbour the keys, first occur in the edge list.
\<close>

type_synonym edge = "string \<times> string \<times> pyval \<times> edge_data"

record graph =
  node :: "(string \<times> node_data) list"
  edges :: "edge list"

text \<open>The keys of a dictionary filled in the order \<open>xs\<close>: first occurrences, in order.\<close>

fun fromkeys :: "'a list \<Rightarrow> 'a list" where
  "fromkeys [] = []"
| "fromkeys (x # xs) = x # filter (\<lambda>y. y \<noteq> x) (fromkeys xs)"

definition has_node :: "graph \<Rightarrow> string \<Rightarrow> bool" where
  "has_node G n = (n \<in> set (map fst (node G)))"

text \<open>\<open>G.nodes[n]\<close> raises \<open>KeyError\<close> for a node that is not in the graph.\<close>

definition nodes_getitem :: "graph \<Rightarrow> string \<Rightarrow> py_error + node_data" where
  "nodes_getitem G n = (case map_of (node G) n of None \<Rightarrow> Inl KeyError | Some d \<Rightarrow> Inr d)"

text \<open>\<open>list(G._succ[n])\<close> and \<open>list(G._pred[n])\<close> for a node of the graph.\<close>

definition succ_keys :: "graph \<Rightarrow> string \<Rightarrow> string list" where
  "succ_keys G n = fromkeys (map (\<lambda>(u, v, k, d). v) (filter (\<lambda>(u, v, k, d). u = n) (edges G)))"

definition pred_keys :: "graph \<Rightarrow> string \<Rightarrow> string list" where
  "pred_keys G n = fromkeys (map (\<lambda>(u, v, k, d). u) (filter (\<lambda>(u, v, k, d). v = n) (edges G)))"

text \<open>\<open>G.successors(n)\<close> and \<open>G.predecessors(n)\<close> raise \<open>NetworkXError\<close> outside the graph.\<close>

definition successors :: "graph \<Rightarrow> string \<Rightarrow> py_error + string list" where
  "successors G n = (if has_node G n then Inr (succ_keys G n) else Inl NetworkXError)"

definition predecessors :: "graph \<Rightarrow> string \<Rightarrow> py_error + string list" where
  "predecessors G n = (if has_node G n then Inr (pred_keys G n) else Inl NetworkXError)"

text \<open>
  \<open>G.nbunch_iter(nbunch)\<close> for a string: the node itself when it is in the graph;
  otherwise the string is iterated as a sequence of nodes, and those of its
  one-character strings that are nodes are kept. The edge views put the result
  through \<open>dict.fromkeys\<close>.
\<close>

definition nbunch_iter :: "graph \<Rightarrow> string \<Rightarrow> string list" where
  "nbunch_iter G nbunch =
     (if has_node G nbunch then [nbunch]
      else filter (has_node G) (map (\<lambda>c. [c]) nbunch))"

text \<open>
  \<open>G.out_edges(nbunch, data=True)\<close> and \<open>G.in_edges(nbunch, data=True)\<close>: for each node
  of the bunch, for each neighbour in the adjacency table, for each parallel edge by key,
  the triple \<open>(source, target, data)\<close>.
\<close>

definition out_edges_node :: "graph \<Rightarrow> string \<Rightarrow> (string \<times> string \<times> edge_data) list" where
  "out_edges_node G n =
     concat (map (\<lambda>nbr. map (\<lambda>(u, v, k, d). (n, nbr, d))
                           (filter (\<lambda>(u, v, k, d). u = n \<and> v = nbr) (edges G)))
                 (succ_keys G n))"

definition in_edges_node :: "graph \<Rightarrow> string \<Rightarrow> (string \<times> string \<times> edge_data) list" where
  "in_edges_node G n =
     concat (map (\<lambda>nbr. map (\<lambda>(u, v, k, d). (nbr, n, d))
                           (filter (\<lambda>(u, v, k, d). u = nbr \<and> v = n) (edges G)))
                 (pred_keys G n))"

definition out_edges :: "graph \<Rightarrow> string \<Rightarrow> (string \<times> string \<times> edge_data) list" where
  "out_edges G nbunch = concat (map (out_edges_node G) (fromkeys (nbunch_iter G nbunch)))"

definition in_edges :: "graph \<Rightarrow> string \<Rightarrow> (string \<times> string \<times> edge_data) list" where
  "in_edges G nbunch = concat (map (in_edges_node G) (fromkeys (nbunch_iter G nbunch)))"

subsection \<open>get_node_by_name\<close>

text \<open>
  \<open>str.lower\<close> is a parameter of the model, \<open>lower\<close>: Python lowercases by the Unicode
  tables, which are not part of the repository. \<open>ascii_lower\<close> is its restriction to
  ASCII letters.
\<close>

definition ascii_uppercase :: string where
  "ascii_uppercase = ''ABCDEFGHIJKLMNOPQRSTUVWXYZ''"

definition ascii_lowercase :: string where
  "ascii_lowercase = ''abcdefghijklmnopqrstuvwxyz''"

definition ascii_lower_char :: "char \<Rightarrow> char" where
  "ascii_lower_char c =
     (case map_of (zip ascii_uppercase ascii_lowercase) c of None \<Rightarrow> c | Some l \<Rightarrow> l)"

definition ascii_lower :: "string \<Rightarrow> string" where
  "ascii_lower s = map ascii_lower_char s"

text \<open>\<open>data.get("name", "")\<close>\<close>

definition get_name :: "node_data \<Rightarrow> string" where
  "get_name data = (case data ''name'' of None \<Rightarrow> [] | Some s \<Rightarrow> s)"

text \<open>The loop over \<open>G.nodes(data=True)\<close>, appending to \<open>matches\<close>.\<close>

fun get_node_by_name_loop ::
  "(string \<Rightarrow> string) \<Rightarrow> string \<Rightarrow> (string \<times> node_data) list \<Rightarrow> (string \<times> node_data) list
     \<Rightarrow> (string \<times> node_data) list" where
  "get_node_by_name_loop lower name_lower [] matches = matches"
| "get_node_by_name_loop lower name_lower ((node_id, data) # rest) matches =
     (let node_name = lower (get_name data) in
      if substr name_lower node_name \<or> substr node_name name_lower
      then get_node_by_name_loop lower name_lower rest (matches @ [(node_id, data)])
      else get_node_by_name_loop lower name_lower rest matches)"

definition get_node_by_name ::
  "(string \<Rightarrow> string) \<Rightarrow> graph \<Rightarrow> string \<Rightarrow> (string \<times> node_data) list" where
  "get_node_by_name lower G name = get_node_by_name_loop lower (lower name) (node G) []"

subsection \<open>get_node_relationships\<close>

record fact =
  direction :: string
  source :: string
  source_name :: "string option"
  target :: string
  target_name :: "string option"
  relation :: "pyval option"
  attributes :: edge_data

text \<open>\<open>{k: v for k, v in data.items() if k != "relation"}\<close>\<close>

definition without_relation :: "edge_data \<Rightarrow> edge_data" where
  "without_relation data = data(''relation'' := None)"

text \<open>The two loops of \<open>get_node_relationships\<close>; each \<open>G.nodes[...]\<close> may raise.\<close>

fun outgoing_loop ::
  "graph \<Rightarrow> string \<Rightarrow> (string \<times> string \<times> edge_data) list \<Rightarrow> fact list \<Rightarrow> py_error + fact list" where
  "outgoing_loop G node_id [] relationships = Inr relationships"
| "outgoing_loop G node_id ((u, tgt, data) # rest) relationships =
     (case nodes_getitem G tgt of
        Inl e \<Rightarrow> Inl e
      | Inr target_data \<Rightarrow>
          (case nodes_getitem G node_id of
             Inl e \<Rightarrow> Inl e
           | Inr node_data \<Rightarrow>
               outgoing_loop G node_id rest
                 (relationships @
                  [\<lparr>direction = ''outgoing'', source = node_id, source_name = node_data ''name'',
                    target = tgt, target_name = target_data ''name'',
                    relation = data ''relation'', attributes = without_relation data\<rparr>])))"

fun incoming_loop ::
  "graph \<Rightarrow> string \<Rightarrow> (string \<times> string \<times> edge_data) list \<Rightarrow> fact list \<Rightarrow> py_error + fact list" where
  "incoming_loop G node_id [] relationships = Inr relationships"
| "incoming_loop G node_id ((src, v, data) # rest) relationships =
     (case nodes_getitem G src of
        Inl e \<Rightarrow> Inl e
      | Inr source_data \<Rightarrow>
          (case nodes_getitem G node_id of
             Inl e \<Rightarrow> Inl e
           | Inr node_data \<Rightarrow>
               incoming_loop G node_id rest
                 (relationships @
                  [\<lparr>direction = ''incoming'', source = src, source_name = source_data ''name'',
                    target = node_id, target_name = node_data ''name'',
                    relation = data ''relation'', attributes = without_relation data\<rparr>])))"

definition get_node_relationships :: "graph \<Rightarrow> string \<Rightarrow> py_error + fact list" where
  "get_node_relationships G node_id =
     (case outgoing_loop G node_id (out_edges G node_id) [] of
        Inl e \<Rightarrow> Inl e
      | Inr relationships \<Rightarrow> incoming_loop G node_id (in_edges G node_id) relationships)"

subsection \<open>traverse_from_node\<close>

text \<open>The key of a fact: \<open>(fact["source"], fact["target"], fact["relation"])\<close>.\<close>

definition fact_key :: "fact \<Rightarrow> string \<times> string \<times> pyval option" where
  "fact_key f = (source f, target f, relation f)"

text \<open>The loop that removes duplicate facts, with its set \<open>seen\<close> and its list \<open>unique_facts\<close>.\<close>

fun unique_facts_loop ::
  "fact list \<Rightarrow> (string \<times> string \<times> pyval option) set \<Rightarrow> fact list \<Rightarrow> fact list" where
  "unique_facts_loop [] seen unique_facts = unique_facts"
| "unique_facts_loop (f # rest) seen unique_facts =
     (let key = fact_key f in
      if key \<notin> seen then unique_facts_loop rest (insert key seen) (unique_facts @ [f])
      else unique_facts_loop rest seen unique_facts)"

definition unique_facts :: "fact list \<Rightarrow> fact list" where
  "unique_facts fs = unique_facts_loop fs {} []"

text \<open>The inner loop over the neighbours, appending to the queue.\<close>

fun enqueue_neighbors ::
  "string list \<Rightarrow> string set \<Rightarrow> int \<Rightarrow> (string \<times> int) list \<Rightarrow> (string \<times> int) list" where
  "enqueue_neighbors [] visited current_depth to_visit = to_visit"
| "enqueue_neighbors (neighbor # rest) visited current_depth to_visit =
     (if neighbor \<notin> visited
      then enqueue_neighbors rest visited current_depth (to_visit @ [(neighbor, current_depth + 1)])
      else enqueue_neighbors rest visited current_depth to_visit)"

text \<open>
  The \<open>while to_visit\<close> loop. The set \<open>visited\<close> is Python's set; \<open>facts\<close> is the list
  before duplicates are removed. An exception of a call leaves the loop.
\<close>

function traverse_loop ::
  "graph \<Rightarrow> int \<Rightarrow> (string \<times> int) list \<Rightarrow> string set \<Rightarrow> fact list
     \<Rightarrow> py_error + (string set \<times> fact list)" where
  "traverse_loop G depth [] visited fs = Inr (visited, fs)"
| "traverse_loop G depth ((current_id, current_depth) # to_visit) visited fs =
     (if current_id \<in> visited \<or> current_depth > depth
      then traverse_loop G depth to_visit visited fs
      else
        (case get_node_relationships G current_id of
           Inl e \<Rightarrow> Inl e
         | Inr rels \<Rightarrow>
             if current_depth < depth
             then
               (case successors G current_id of
                  Inl e \<Rightarrow> Inl e
                | Inr ss \<Rightarrow>
                    (case predecessors G current_id of
                       Inl e \<Rightarrow> Inl e
                     | Inr ps \<Rightarrow>
                         traverse_loop G depth
                           (enqueue_neighbors (ss @ ps) (insert current_id visited)
                              current_depth to_visit)
                           (insert current_id visited) (fs @ rels)))
             else traverse_loop G depth to_visit (insert current_id visited) (fs @ rels)))"
  by pat_completeness auto
termination
proof (relation "inv_image (less_than <*lex*> less_than)
    (\<lambda>(G, depth, to_visit, visited, fs).
       (card (set (map fst (node G)) - visited), length to_visit))", goal_cases)
  case 1
  show ?case by (intro wf_inv_image wf_lex_prod wf_less_than)
next
  case (2 G depth current_id current_depth to_visit visited fs)
  then show ?case by simp
next
  case (3 G depth current_id current_depth to_visit visited fs rels ss ps)
  from 3(4) have "current_id \<in> set (map fst (node G))"
    by (simp add: successors_def has_node_def split: if_splits)
  moreover from 3(1) have "current_id \<notin> visited" by simp
  ultimately have "set (map fst (node G)) - insert current_id visited
      \<subset> set (map fst (node G)) - visited"
    by auto
  then have "card (set (map fst (node G)) - insert current_id visited)
      < card (set (map fst (node G)) - visited)"
    by (intro psubset_card_mono) auto
  then show ?case by simp
next
  case (4 G depth current_id current_depth to_visit visited fs rels)
  have "card (set (map fst (node G)) - insert current_id visited)
      \<le> card (set (map fst (node G)) - visited)"
    by (intro card_mono) auto
  then show ?case by auto
qed

record traversal =
  start_node :: string
  visited_nodes :: "string set"
  facts :: "fact list"

definition traverse_from_node :: "graph \<Rightarrow> string \<Rightarrow> int \<Rightarrow> py_error + traversal" where
  "traverse_from_node G node_id depth =
     (case traverse_loop G depth [(node_id, 0)] {} [] of
        Inl e \<Rightarrow> Inl e
      | Inr (visited, fs) \<Rightarrow>
          Inr \<lparr>start_node = node_id, visited_nodes = visited, facts = unique_facts fs\<rparr>)"

subsection \<open>create_knowledge_graph\<close>

text \<open>
  \<open>G.add_node(n, **attr)\<close>: a new node is appended to the node table with a copy of the
  attributes; the attributes of a node already present are updated.
\<close>

definition add_node :: "graph \<Rightarrow> string \<Rightarrow> node_data \<Rightarrow> graph" where
  "add_node G n attr =
     (if has_node G n
      then G\<lparr>node := map (\<lambda>(m, d). if m = n then (m, d ++ attr) else (m, d)) (node G)\<rparr>
      else G\<lparr>node := node G @ [(n, attr)]\<rparr>)"

text \<open>The keys of the parallel edges from \<open>u\<close> to \<open>v\<close>, in insertion order.\<close>

definition edge_keys :: "graph \<Rightarrow> string \<Rightarrow> string \<Rightarrow> pyval list" where
  "edge_keys G u v = map (\<lambda>(a, b, k, d). k) (filter (\<lambda>(a, b, k, d). a = u \<and> b = v) (edges G))"

text \<open>
  \<open>G.new_edge_key(u, v)\<close>: \<open>key = len(keydict)\<close>, then \<open>while key in keydict: key += 1\<close>.
\<close>

function new_edge_key_loop :: "pyval list \<Rightarrow> int \<Rightarrow> int" where
  "new_edge_key_loop keydict key =
     (if PInt key \<in> set keydict then new_edge_key_loop keydict (key + 1) else key)"
  by pat_completeness auto
termination
proof (relation "measure (\<lambda>(keydict, key).
    length (filter (\<lambda>x. case x of PInt j \<Rightarrow> key \<le> j | PStr s \<Rightarrow> False) keydict))", goal_cases)
  case 1
  show ?case by simp
next
  case (2 keydict key)
  let ?P = "\<lambda>x. case x of PInt j \<Rightarrow> key \<le> j | PStr s \<Rightarrow> False"
  let ?Q = "\<lambda>x. case x of PInt j \<Rightarrow> key + 1 \<le> j | PStr s \<Rightarrow> False"
  have "filter ?Q keydict = filter ?Q (filter ?P keydict)"
    by (auto intro!: filter_cong split: pyval.splits)
  moreover have "PInt key \<in> set (filter ?P keydict)" using 2 by simp
  moreover have "\<not> ?Q (PInt key)" by simp
  ultimately have "length (filter ?Q keydict) < length (filter ?P keydict)"
    by (metis length_filter_less)
  then show ?case by simp
qed

declare new_edge_key_loop.simps [simp del]

definition new_edge_key :: "graph \<Rightarrow> string \<Rightarrow> string \<Rightarrow> int" where
  "new_edge_key G u v =
     new_edge_key_loop (edge_keys G u v) (int (length (edge_keys G u v)))"

text \<open>
  \<open>G.add_edge(u, v, key=None, **attr)\<close>: an endpoint that is not in the graph is added
  as a node with no attributes, and nothing is raised; a key not given is a new one; the
  data of an edge already present under the key is updated, otherwise the edge is added.
\<close>

definition add_edge :: "graph \<Rightarrow> string \<Rightarrow> string \<Rightarrow> pyval option \<Rightarrow> edge_data \<Rightarrow> graph" where
  "add_edge G u v key attr =
     (let G1 = (if has_node G u then G else G\<lparr>node := node G @ [(u, Map.empty)]\<rparr>);
          G2 = (if has_node G1 v then G1 else G1\<lparr>node := node G1 @ [(v, Map.empty)]\<rparr>);
          k = (case key of None \<Rightarrow> PInt (new_edge_key G2 u v) | Some k' \<Rightarrow> k')
      in if k \<in> set (edge_keys G2 u v)
         then G2\<lparr>edges := map (\<lambda>(a, b, k', d).
                                  if a = u \<and> b = v \<and> k' = k then (a, b, k', d ++ attr)
                                  else (a, b, k', d)) (edges G2)\<rparr>
         else G2\<lparr>edges := edges G2 @ [(u, v, k, attr)]\<rparr>)"

text \<open>
  The loops of \<open>create_knowledge_graph\<close>. \<open>person["id"]\<close> raises \<open>KeyError\<close> when the
  record has no id. The records are passed as keyword arguments, so a name that is also
  the name of a parameter of the called method (\<open>self\<close> and \<open>node_for_adding\<close> of
  \<open>add_node\<close>; \<open>self\<close>, \<open>u_for_edge\<close> and \<open>v_for_edge\<close> of \<open>add_edge\<close>), or the
  name \<open>relation\<close> that the call already passes, raises \<open>TypeError\<close>; an attribute
  \<open>key\<close> of a relationship is the parameter \<open>key\<close> of \<open>add_edge\<close>.
\<close>

fun add_nodes_loop :: "graph \<Rightarrow> node_data list \<Rightarrow> py_error + graph" where
  "add_nodes_loop G [] = Inr G"
| "add_nodes_loop G (person # rest) =
     (case person ''id'' of
        None \<Rightarrow> Inl KeyError
      | Some i \<Rightarrow>
          if person ''self'' \<noteq> None \<or> person ''node_for_adding'' \<noteq> None then Inl TypeError
          else add_nodes_loop (add_node G i person) rest)"

fun add_edges_loop ::
  "graph \<Rightarrow> (string \<times> string \<times> string \<times> edge_data) list \<Rightarrow> py_error + graph" where
  "add_edges_loop G [] = Inr G"
| "add_edges_loop G ((src, tgt, rel_type, attrs) # rest) =
     (if attrs ''relation'' \<noteq> None \<or> attrs ''self'' \<noteq> None
         \<or> attrs ''u_for_edge'' \<noteq> None \<or> attrs ''v_for_edge'' \<noteq> None
      then Inl TypeError
      else add_edges_loop
             (add_edge G src tgt (attrs ''key'')
                ((attrs(''key'' := None))(''relation'' \<mapsto> PStr rel_type)))
             rest)"

text \<open>
  \<open>create_knowledge_graph\<close> reads the module constants \<open>PEOPLE\<close>, \<open>COMPANIES\<close> and
  \<open>RELATIONSHIPS\<close>; \<open>build_graph\<close> is its body with the three as parameters.
\<close>

definition build_graph ::
  "node_data list \<Rightarrow> node_data list \<Rightarrow> (string \<times> string \<times> string \<times> edge_data) list
     \<Rightarrow> py_error + graph" where
  "build_graph people companies relationships =
     (case add_nodes_loop \<lparr>node = [], edges = []\<rparr> people of
        Inl e \<Rightarrow> Inl e
      | Inr G1 \<Rightarrow>
          (case add_nodes_loop G1 companies of
             Inl e \<Rightarrow> Inl e
           | Inr G2 \<Rightarrow> add_edges_loop G2 relationships))"

section \<open>The sample data (data.py)\<close>

definition PEOPLE :: "node_data list" where
  "PEOPLE =
    [[''id'' \<mapsto> ''p1'', ''name'' \<mapsto> ''Elon Musk'', ''type'' \<mapsto> ''person'', ''role'' \<mapsto> ''CEO''],
     [''id'' \<mapsto> ''p2'', ''name'' \<mapsto> ''Sam Altman'', ''type'' \<mapsto> ''person'', ''role'' \<mapsto> ''CEO''],
     [''id'' \<mapsto> ''p3'', ''name'' \<mapsto> ''Satya Nadella'', ''type'' \<mapsto> ''person'', ''role'' \<mapsto> ''CEO''],
     [''id'' \<mapsto> ''p4'', ''name'' \<mapsto> ''Jensen Huang'', ''type'' \<mapsto> ''person'', ''role'' \<mapsto> ''CEO''],
     [''id'' \<mapsto> ''p5'', ''name'' \<mapsto> ''Demis Hassabis'', ''type'' \<mapsto> ''person'', ''role'' \<mapsto> ''CEO'']]"

definition COMPANIES :: "node_data list" where
  "COMPANIES =
    [[''id'' \<mapsto> ''c1'', ''name'' \<mapsto> ''Tesla'', ''type'' \<mapsto> ''company'', ''industry'' \<mapsto> ''automotive''],
     [''id'' \<mapsto> ''c2'', ''name'' \<mapsto> ''SpaceX'', ''type'' \<mapsto> ''company'', ''industry'' \<mapsto> ''aerospace''],
     [''id'' \<mapsto> ''c3'', ''name'' \<mapsto> ''OpenAI'', ''type'' \<mapsto> ''company'', ''industry'' \<mapsto> ''AI''],
     [''id'' \<mapsto> ''c4'', ''name'' \<mapsto> ''Microsoft'', ''type'' \<mapsto> ''company'', ''industry'' \<mapsto> ''technology''],
     [''id'' \<mapsto> ''c5'', ''name'' \<mapsto> ''NVIDIA'', ''type'' \<mapsto> ''company'', ''industry'' \<mapsto> ''semiconductors''],
     [''id'' \<mapsto> ''c6'', ''name'' \<mapsto> ''DeepMind'', ''type'' \<mapsto> ''company'', ''industry'' \<mapsto> ''AI''],
     [''id'' \<mapsto> ''c7'', ''name'' \<mapsto> ''Google'', ''type'' \<mapsto> ''company'', ''industry'' \<mapsto> ''technology''],
     [''id'' \<mapsto> ''c8'', ''name'' \<mapsto> ''Neuralink'', ''type'' \<mapsto> ''company'', ''industry'' \<mapsto> ''neurotechnology'']]"

definition RELATIONSHIPS :: "(string \<times> string \<times> string \<times> edge_data) list" where
  "RELATIONSHIPS =
    [(''p1'', ''c1'', ''founded'', [''year'' \<mapsto> PInt 2003]),
     (''p1'', ''c2'', ''founded'', [''year'' \<mapsto> PInt 2002]),
     (''p1'', ''c8'', ''founded'', [''year'' \<mapsto> PInt 2016]),
     (''p1'', ''c1'', ''leads'', [''role'' \<mapsto> PStr ''CEO'']),
     (''p1'', ''c2'', ''leads'', [''role'' \<mapsto> PStr ''CEO'']),
     (''p2'', ''c3'', ''leads'', [''role'' \<mapsto> PStr ''CEO'']),
     (''p2'', ''c3'', ''co_founded'', [''year'' \<mapsto> PInt 2015]),
     (''p3'', ''c4'', ''leads'', [''role'' \<mapsto> PStr ''CEO'']),
     (''p4'', ''c5'', ''founded'', [''year'' \<mapsto> PInt 1993]),
     (''p4'', ''c5'', ''leads'', [''role'' \<mapsto> PStr ''CEO'']),
     (''p5'', ''c6'', ''founded'', [''year'' \<mapsto> PInt 2010]),
     (''p5'', ''c6'', ''leads'', [''role'' \<mapsto> PStr ''CEO'']),
     (''c4'', ''c3'', ''invested_in'', [''amount'' \<mapsto> PStr ''$13B'', ''year'' \<mapsto> PInt 2023]),
     (''c4'', ''c3'', ''partners_with'', [''type'' \<mapsto> PStr ''strategic'']),
     (''c7'', ''c6'', ''acquired'', [''year'' \<mapsto> PInt 2014]),
     (''c5'', ''c3'', ''supplies'', [''product'' \<mapsto> PStr ''GPUs'']),
     (''c5'', ''c4'', ''partners_with'', [''type'' \<mapsto> PStr ''hardware''])]"

definition create_knowledge_graph :: "py_error + graph" where
  "create_knowledge_graph = build_graph PEOPLE COMPANIES RELATIONSHIPS"

section \<open>Entity detection (query.py)\<close>









record entity =
  name :: string
  type :: string
  matched_text :: string




section \<open>The textual context (rag.py)\<close>

text \<open>\<open>str\<close> of the values that the f-strings format.\<close>

function str_of_nat :: "nat \<Rightarrow> string" where
  "str_of_nat n =
     (if n < 10 then [char_of (48 + n)]
      else str_of_nat (n div 10) @ [char_of (48 + n mod 10)])"
  by pat_completeness auto
termination
  by (relation "measure id") auto

declare str_of_nat.simps [simp del]

definition str_of_int :: "int \<Rightarrow> string" where
  "str_of_int i = (if i < 0 then CHR ''-'' # str_of_nat (nat (- i)) else str_of_nat (nat i))"

fun str_of_pyval :: "pyval \<Rightarrow> string" where
  "str_of_pyval (PStr s) = s"
| "str_of_pyval (PInt i) = str_of_int i"

definition str_of_name :: "string option \<Rightarrow> string" where
  "str_of_name x = (case x of None \<Rightarrow> ''None'' | Some s \<Rightarrow> s)"

definition str_of_relation :: "pyval option \<Rightarrow> string" where
  "str_of_relation x = (case x of None \<Rightarrow> ''None'' | Some v \<Rightarrow> str_of_pyval v)"

text \<open>\<open>sep.join(parts)\<close>\<close>

fun join :: "string \<Rightarrow> string list \<Rightarrow> string" where
  "join sep [] = []"
| "join sep [x] = x"
| "join sep (x # y # ys) = x @ sep @ join sep (y # ys)"

definition format_single_fact :: "fact \<Rightarrow> string" where
  "format_single_fact f =
     (let src = str_of_name (source_name f);
          tgt = str_of_name (target_name f);
          rel = relation f;
          attrs = attributes f;
          templates =
            [(''founded'', src @ '' founded '' @ tgt),
             (''co_founded'', src @ '' co-founded '' @ tgt),
             (''leads'', src @ '' leads '' @ tgt),
             (''works_at'', src @ '' works at '' @ tgt),
             (''invested_in'', src @ '' invested in '' @ tgt),
             (''acquired'', src @ '' acquired '' @ tgt),
             (''partners_with'', src @ '' partners with '' @ tgt),
             (''supplies'', src @ '' supplies to '' @ tgt)];
          default = src @ '' '' @ str_of_relation rel @ '' '' @ tgt;
          sentence =
            (case rel of
               Some (PStr r) \<Rightarrow> (case map_of templates r of None \<Rightarrow> default | Some t \<Rightarrow> t)
             | _ \<Rightarrow> default);
          attr_parts =
            (case attrs ''year'' of None \<Rightarrow> [] | Some y \<Rightarrow> [''in '' @ str_of_pyval y]) @
            (case attrs ''amount'' of None \<Rightarrow> [] | Some a \<Rightarrow> [''('' @ str_of_pyval a @ '')'']) @
            (case attrs ''role'' of
               None \<Rightarrow> []
             | Some r \<Rightarrow> if rel = Some (PStr ''leads'') then [''as '' @ str_of_pyval r] else []) @
            (case attrs ''product'' of None \<Rightarrow> [] | Some p \<Rightarrow> [''('' @ str_of_pyval p @ '')''])
      in if attr_parts \<noteq> [] then sentence @ '' '' @ join '' '' attr_parts else sentence)"

definition NO_INFORMATION :: string where
  "NO_INFORMATION = ''No relevant information found in the knowledge graph.''"

definition build_context :: "fact list \<Rightarrow> entity list \<Rightarrow> string" where
  "build_context fs entities =
     (if fs = [] then NO_INFORMATION
      else
        (let context_parts =
               (if entities \<noteq> []
                then [''Information about: '' @ join '', '' (map name entities), []]
                else []) @
               [''Known facts:''] @
               map (\<lambda>f. ''- '' @ format_single_fact f) fs
         in join [CHR 0x0A] context_parts))"

section \<open>The pipeline stages (graph.py)\<close>

text \<open>
  The stages return an update of the pipeline state; the diagnostic lines that they also
  return (\<open>debug_logs\<close>) are not modelled. The loops of \<open>build_context_node\<close> collect
  the facts of all traversals, with one set \<open>seen\<close> for all of them.
\<close>

fun collect_facts_loop ::
  "fact list \<Rightarrow> (string \<times> string \<times> pyval option) set \<Rightarrow> fact list
     \<Rightarrow> (string \<times> string \<times> pyval option) set \<times> fact list" where
  "collect_facts_loop [] seen all_facts = (seen, all_facts)"
| "collect_facts_loop (f # rest) seen all_facts =
     (let key = fact_key f in
      if key \<notin> seen then collect_facts_loop rest (insert key seen) (all_facts @ [f])
      else collect_facts_loop rest seen all_facts)"

fun collect_traversals_loop ::
  "traversal list \<Rightarrow> (string \<times> string \<times> pyval option) set \<Rightarrow> fact list \<Rightarrow> fact list" where
  "collect_traversals_loop [] seen all_facts = all_facts"
| "collect_traversals_loop (t # rest) seen all_facts =
     (case collect_facts_loop (facts t) seen all_facts of
        (seen', all_facts') \<Rightarrow> collect_traversals_loop rest seen' all_facts')"

definition all_unique_facts :: "traversal list \<Rightarrow> fact list" where
  "all_unique_facts traversals = collect_traversals_loop traversals {} []"

definition build_context_node :: "traversal list \<Rightarrow> entity list \<Rightarrow> string" where
  "build_context_node traversals entities = build_context (all_unique_facts traversals) entities"

text \<open>
  \<open>generate_answer_node\<close>. The client \<open>LLM_CLIENT\<close> is a parameter: \<open>None\<close>, or a function
  from the prompt to the content of the response, or to the text of the exception that
  \<open>invoke\<close> raised.
\<close>

definition COULD_NOT_FIND :: string where
  "COULD_NOT_FIND =
     ''I couldn'' @ [CHR 0x27] @
     ''t find any relevant information in the knowledge graph to answer your question.''"

definition llm_prompt :: "string \<Rightarrow> string \<Rightarrow> string" where
  "llm_prompt context question =
     ''You are a helpful assistant answering questions based on a knowledge graph.'' @ [CHR 0x0A] @
     ''Use ONLY the provided context to answer. Be concise and direct.'' @ [CHR 0x0A] @
     ''If the context doesn'' @ [CHR 0x27] @ ''t contain enough information, say so.'' @
     [CHR 0x0A, CHR 0x0A] @
     ''Context from knowledge graph:'' @ [CHR 0x0A] @
     context @ [CHR 0x0A, CHR 0x0A] @
     ''Question: '' @ question @ [CHR 0x0A, CHR 0x0A] @
     ''Answer:''"

definition generate_answer_node ::
  "(string \<Rightarrow> string + string) option \<Rightarrow> string \<Rightarrow> string \<Rightarrow> string" where
  "generate_answer_node LLM_CLIENT context question =
     (if substr ''No relevant information'' context then COULD_NOT_FIND
      else
        (case LLM_CLIENT of
           None \<Rightarrow>
             ''[LLM not available - showing raw context]'' @ [CHR 0x0A, CHR 0x0A] @
             context @ [CHR 0x0A, CHR 0x0A] @
             ''Set GROQ_API_KEY environment variable to enable LLM responses.''
         | Some invoke \<Rightarrow>
             (case invoke (llm_prompt context question) of
                Inr content \<Rightarrow> content
              | Inl e \<Rightarrow>
                  ''Error generating response: '' @ e @ [CHR 0x0A, CHR 0x0A] @
                  ''Raw context:'' @ [CHR 0x0A] @ context)))"

section \<open>Notions used in the properties\<close>

text \<open>
  Every \<open>MultiDiGraph\<close> has the endpoints of its edges among its nodes: \<open>add_edge\<close>
  adds them. The record \<open>graph\<close> does not enforce it, so the properties of a graph
  that is not built here assume it.
\<close>

definition wf_graph :: "graph \<Rightarrow> bool" where
  "wf_graph G = (\<forall>(u, v, k, d) \<in> set (edges G). has_node G u \<and> has_node G v)"

text \<open>\<open>G.nodes[n].get("name")\<close> for a node of the graph.\<close>

definition node_name :: "graph \<Rightarrow> string \<Rightarrow> string option" where
  "node_name G n = (case map_of (node G) n of None \<Rightarrow> None | Some data \<Rightarrow> data ''name'')"

text \<open>
  The dictionaries that the two loops of \<open>get_node_relationships\<close> append for an edge
  \<open>(u, v, key, data)\<close> of the node \<open>node_id\<close>.
\<close>

definition outgoing_fact :: "graph \<Rightarrow> string \<Rightarrow> edge \<Rightarrow> fact" where
  "outgoing_fact G node_id e =
     (case e of (u, v, k, data) \<Rightarrow>
        \<lparr>direction = ''outgoing'', source = node_id, source_name = node_name G node_id,
         target = v, target_name = node_name G v,
         relation = data ''relation'', attributes = without_relation data\<rparr>)"

definition incoming_fact :: "graph \<Rightarrow> string \<Rightarrow> edge \<Rightarrow> fact" where
  "incoming_fact G node_id e =
     (case e of (u, v, k, data) \<Rightarrow>
        \<lparr>direction = ''incoming'', source = u, source_name = node_name G u,
         target = node_id, target_name = node_name G node_id,
         relation = data ''relation'', attributes = without_relation data\<rparr>)"

text \<open>The edges out of a node and into a node, in the order of the two edge views.\<close>

definition out_edge_list :: "graph \<Rightarrow> string \<Rightarrow> edge list" where
  "out_edge_list G n =
     concat (map (\<lambda>nbr. filter (\<lambda>(u, v, k, d). u = n \<and> v = nbr) (edges G)) (succ_keys G n))"

definition in_edge_list :: "graph \<Rightarrow> string \<Rightarrow> edge list" where
  "in_edge_list G n =
     concat (map (\<lambda>nbr. filter (\<lambda>(u, v, k, d). u = nbr \<and> v = n) (edges G)) (pred_keys G n))"

text \<open>
  The seed data that \<open>create_knowledge_graph\<close> can pass on to \<open>add_node\<close> and
  \<open>add_edge\<close>: every node record has an id, and no attribute name is the name of a
  parameter of the method that receives the attributes as keyword arguments.
\<close>

definition seeds_callable ::
  "node_data list \<Rightarrow> node_data list \<Rightarrow> (string \<times> string \<times> string \<times> edge_data) list \<Rightarrow> bool" where
  "seeds_callable people companies relationships =
     ((\<forall>p \<in> set (people @ companies).
          p ''id'' \<noteq> None \<and> p ''self'' = None \<and> p ''node_for_adding'' = None)
      \<and> (\<forall>(s, t, r, a) \<in> set relationships.
            a ''relation'' = None \<and> a ''self'' = None
            \<and> a ''u_for_edge'' = None \<and> a ''v_for_edge'' = None))"

text \<open>The ids of the node seeds.\<close>

definition seed_ids :: "node_data list \<Rightarrow> string set" where
  "seed_ids ps = set (List.map_filter (\<lambda>p. p ''id'') ps)"





text \<open>What a node of the graph contributes when it is expanded.\<close>

definition node_facts :: "graph \<Rightarrow> string \<Rightarrow> fact list" where
  "node_facts G n =
     map (outgoing_fact G n) (out_edge_list G n) @ map (incoming_fact G n) (in_edge_list G n)"

text \<open>
  The expansion rule in the words of the specification, to be compared with
  \<open>traverse_loop\<close>: a node popped at depth \<open>d\<close> that is already visited is dropped;
  otherwise it is marked visited and contributes its relationships, before any test of the
  depth, and its unvisited neighbours in both directions are enqueued at depth \<open>d + 1\<close>
  only if \<open>d < maxDepth\<close>.
\<close>

function expansion_rule_loop ::
  "graph \<Rightarrow> int \<Rightarrow> (string \<times> int) list \<Rightarrow> string set \<Rightarrow> fact list
     \<Rightarrow> py_error + (string set \<times> fact list)" where
  "expansion_rule_loop G maxDepth [] visited fs = Inr (visited, fs)"
| "expansion_rule_loop G maxDepth ((n, d) # queue) visited fs =
     (if n \<in> visited then expansion_rule_loop G maxDepth queue visited fs
      else
        (case get_node_relationships G n of
           Inl e \<Rightarrow> Inl e
         | Inr rels \<Rightarrow>
             if d < maxDepth
             then
               (case successors G n of
                  Inl e \<Rightarrow> Inl e
                | Inr ss \<Rightarrow>
                    (case predecessors G n of
                       Inl e \<Rightarrow> Inl e
                     | Inr ps \<Rightarrow>
                         expansion_rule_loop G maxDepth
                           (queue @ map (\<lambda>m. (m, d + 1))
                                      (filter (\<lambda>m. m \<notin> insert n visited) (ss @ ps)))
                           (insert n visited) (fs @ rels)))
             else expansion_rule_loop G maxDepth queue (insert n visited) (fs @ rels)))"
  by pat_completeness auto
termination
proof (relation "inv_image (less_than <*lex*> less_than)
    (\<lambda>(G, maxDepth, queue, visited, fs).
       (card (set (map fst (node G)) - visited), length queue))", goal_cases)
  case 1
  show ?case by (intro wf_inv_image wf_lex_prod wf_less_than)
next
  case (2 G maxDepth n d queue visited fs)
  then show ?case by simp
next
  case (3 G maxDepth n d queue visited fs rels ss ps)
  from 3(4) have "n \<in> set (map fst (node G))"
    by (simp add: successors_def has_node_def split: if_splits)
  with 3(1) have "set (map fst (node G)) - insert n visited \<subset> set (map fst (node G)) - visited"
    by auto
  then have "card (set (map fst (node G)) - insert n visited)
      < card (set (map fst (node G)) - visited)"
    by (intro psubset_card_mono) auto
  then show ?case by simp
next
  case (4 G maxDepth n d queue visited fs rels)
  have "card (set (map fst (node G)) - insert n visited)
      \<le> card (set (map fst (node G)) - visited)"
    by (intro card_mono) auto
  then show ?case by auto
qed

section \<open>Name lookup\<close>

lemma substr_sublist: "substr xs ys = sublist xs ys"
  by (induction ys) (auto simp: sublist_Cons_right)

lemma get_node_by_name_loop_filter:
  "get_node_by_name_loop lower q ns matches =
     matches @ filter (\<lambda>(node_id, data). sublist q (lower (get_name data))
                         \<or> sublist (lower (get_name data)) q) ns"
proof (induction ns arbitrary: matches)
  case Nil
  show ?case by simp
next
  case (Cons n ns)
  obtain node_id data where n: "n = (node_id, data)" by (cases n)
  show ?case
    unfolding n using Cons.IH [of matches] Cons.IH [of "matches @ [(node_id, data)]"]
    by (simp add: substr_sublist Let_def)
qed

text \<open>
  C6. For every graph and every query, \<open>get_node_by_name\<close> returns exactly the nodes,
  in the order of the node table, whose lowercased name (the value of the attribute
  \<open>name\<close>, the empty string for a node without one) has the lowercased query as a
  contiguous substring, or is itself a contiguous substring of the lowercased query: the
  rule is symmetric in the two, and every match is returned.
\<close>

theorem get_node_by_name_mutual_substring:
  "get_node_by_name lower G query =
     filter (\<lambda>(node_id, data).
               sublist (lower query) (lower (case data ''name'' of None \<Rightarrow> [] | Some s \<Rightarrow> s))
               \<or> sublist (lower (case data ''name'' of None \<Rightarrow> [] | Some s \<Rightarrow> s)) (lower query))
            (node G)"
  by (simp add: get_node_by_name_def get_node_by_name_loop_filter get_name_def)

theorem get_node_by_name_mutual_substring_witness:
  "get_node_by_name ascii_lower \<lparr>node = [(''p1'', [''id'' \<mapsto> ''p1'', ''name'' \<mapsto> ''Elon Musk'']),
              (''c1'', [''id'' \<mapsto> ''c1'', ''name'' \<mapsto> ''Tesla''])],
      edges = []\<rparr> ''TESLA''
     = [(''c1'', [''id'' \<mapsto> ''c1'', ''name'' \<mapsto> ''Tesla''])]
   \<and> get_node_by_name ascii_lower \<lparr>node = [(''p1'', [''id'' \<mapsto> ''p1'', ''name'' \<mapsto> ''Elon Musk'']),
              (''c1'', [''id'' \<mapsto> ''c1'', ''name'' \<mapsto> ''Tesla''])],
      edges = []\<rparr> ''musk''
     = [(''p1'', [''id'' \<mapsto> ''p1'', ''name'' \<mapsto> ''Elon Musk''])]
   \<and> get_node_by_name ascii_lower \<lparr>node = [(''p1'', [''id'' \<mapsto> ''p1'', ''name'' \<mapsto> ''Elon Musk'']),
              (''c1'', [''id'' \<mapsto> ''c1'', ''name'' \<mapsto> ''Tesla''])],
      edges = []\<rparr> ''Elon Musk Jr''
     = [(''p1'', [''id'' \<mapsto> ''p1'', ''name'' \<mapsto> ''Elon Musk''])]
   \<and> get_node_by_name ascii_lower \<lparr>node = [(''p1'', [''id'' \<mapsto> ''p1'', ''name'' \<mapsto> ''Elon Musk'']),
              (''c1'', [''id'' \<mapsto> ''c1'', ''name'' \<mapsto> ''Tesla''])],
      edges = []\<rparr> ''Google'' = []"
proof -
  have l: "ascii_lower ''TESLA'' = ''tesla''" "ascii_lower ''musk'' = ''musk''"
    "ascii_lower ''Elon Musk Jr'' = ''elon musk jr''" "ascii_lower ''Google'' = ''google''"
    "ascii_lower ''Elon Musk'' = ''elon musk''" "ascii_lower ''Tesla'' = ''tesla''"
    by (simp_all add: ascii_lower_def ascii_lower_char_def ascii_uppercase_def
        ascii_lowercase_def)
  show ?thesis
    using get_node_by_name_mutual_substring [of ascii_lower "\<lparr>node = [(''p1'', [''id'' \<mapsto> ''p1'', ''name'' \<mapsto> ''Elon Musk'']),
              (''c1'', [''id'' \<mapsto> ''c1'', ''name'' \<mapsto> ''Tesla''])],
      edges = []\<rparr>" "''TESLA''"]
      get_node_by_name_mutual_substring [of ascii_lower "\<lparr>node = [(''p1'', [''id'' \<mapsto> ''p1'', ''name'' \<mapsto> ''Elon Musk'']),
              (''c1'', [''id'' \<mapsto> ''c1'', ''name'' \<mapsto> ''Tesla''])],
      edges = []\<rparr>" "''musk''"]
      get_node_by_name_mutual_substring [of ascii_lower "\<lparr>node = [(''p1'', [''id'' \<mapsto> ''p1'', ''name'' \<mapsto> ''Elon Musk'']),
              (''c1'', [''id'' \<mapsto> ''c1'', ''name'' \<mapsto> ''Tesla''])],
      edges = []\<rparr>" "''Elon Musk Jr''"]
      get_node_by_name_mutual_substring [of ascii_lower "\<lparr>node = [(''p1'', [''id'' \<mapsto> ''p1'', ''name'' \<mapsto> ''Elon Musk'']),
              (''c1'', [''id'' \<mapsto> ''c1'', ''name'' \<mapsto> ''Tesla''])],
      edges = []\<rparr>" "''Google''"]
    by (simp add: l sublist_code)
qed

text \<open>
  C10. With the empty query, whose lowercase is the empty string, \<open>get_node_by_name\<close>
  returns every node of the graph, a node without a name included.
\<close>

theorem get_node_by_name_empty_query:
  "lower [] = [] \<Longrightarrow> get_node_by_name lower G [] = node G"
  by (simp add: get_node_by_name_def get_node_by_name_loop_filter)

theorem get_node_by_name_empty_query_witness:
  "ascii_lower [] = [] \<and>
   get_node_by_name ascii_lower
     \<lparr>node = [(''p1'', [''id'' \<mapsto> ''p1'', ''name'' \<mapsto> ''Elon Musk'']), (''x'', Map.empty)],
      edges = []\<rparr> []
   = [(''p1'', [''id'' \<mapsto> ''p1'', ''name'' \<mapsto> ''Elon Musk'']), (''x'', Map.empty)]"
  using get_node_by_name_empty_query [of ascii_lower
     "\<lparr>node = [(''p1'', [''id'' \<mapsto> ''p1'', ''name'' \<mapsto> ''Elon Musk'']), (''x'', Map.empty)],
       edges = []\<rparr>"]
  by (simp add: ascii_lower_def)

section \<open>Removing duplicate facts\<close>

lemma unique_facts_loop_acc:
  "unique_facts_loop fs seen acc = acc @ unique_facts_loop fs seen []"
proof (induction fs arbitrary: seen acc)
  case Nil
  then show ?case by simp
next
  case (Cons f fs)
  show ?case
    using Cons.IH [of "insert (fact_key f) seen" "acc @ [f]"]
          Cons.IH [of "insert (fact_key f) seen" "[f]"] Cons.IH [of seen acc]
    by (simp add: Let_def)
qed

lemma unique_facts_loop_Cons:
  "unique_facts_loop (f # fs) seen [] =
     (if fact_key f \<in> seen then unique_facts_loop fs seen []
      else f # unique_facts_loop fs (insert (fact_key f) seen) [])"
  using unique_facts_loop_acc [of fs "insert (fact_key f) seen" "[f]"]
  by (simp add: Let_def)

lemma unique_facts_loop_filter:
  "unique_facts_loop fs (A \<union> B) [] =
     unique_facts_loop (filter (\<lambda>g. fact_key g \<notin> A) fs) B []"
proof (induction fs arbitrary: B)
  case Nil
  then show ?case by simp
next
  case (Cons f fs)
  show ?case
    using Cons.IH [of B] Cons.IH [of "insert (fact_key f) B"]
    by (simp add: unique_facts_loop_Cons del: unique_facts_loop.simps(2))
qed

lemma unique_facts_Cons:
  "unique_facts (f # fs) = f # unique_facts (filter (\<lambda>g. fact_key g \<noteq> fact_key f) fs)"
  using unique_facts_loop_filter [of fs "{fact_key f}" "{}"]
  by (simp add: unique_facts_def unique_facts_loop_Cons del: unique_facts_loop.simps(2))

lemma unique_facts_loop_keys:
  "set (map fact_key (unique_facts_loop fs seen [])) = set (map fact_key fs) - seen"
  by (induction fs arbitrary: seen)
     (auto simp: unique_facts_loop_Cons simp del: unique_facts_loop.simps(2))

lemma unique_facts_loop_distinct:
  "distinct (map fact_key (unique_facts_loop fs seen []))"
proof (induction fs arbitrary: seen)
  case Nil
  then show ?case by simp
next
  case (Cons f fs)
  show ?case
    using Cons.IH [of seen] Cons.IH [of "insert (fact_key f) seen"]
      unique_facts_loop_keys [of fs "insert (fact_key f) seen"]
    by (auto simp: unique_facts_loop_Cons simp del: unique_facts_loop.simps(2))
qed

lemma unique_facts_loop_id:
  "distinct (map fact_key fs) \<Longrightarrow> set (map fact_key fs) \<inter> seen = {}
     \<Longrightarrow> unique_facts_loop fs seen [] = fs"
  by (induction fs arbitrary: seen)
     (auto simp: unique_facts_loop_Cons simp del: unique_facts_loop.simps(2))

lemma unique_facts_loop_subseq: "subseq (unique_facts_loop fs seen []) fs"
  by (induction fs arbitrary: seen)
     (auto simp: unique_facts_loop_Cons simp del: unique_facts_loop.simps(2))

lemma unique_facts_idem: "unique_facts (unique_facts fs) = unique_facts fs"
  unfolding unique_facts_def
  using unique_facts_loop_id [of "unique_facts_loop fs {} []" "{}"]
    unique_facts_loop_distinct [of fs "{}"] by simp

lemma unique_facts_loop_append:
  "unique_facts_loop (xs @ ys) seen [] =
     unique_facts_loop xs seen [] @ unique_facts_loop ys (seen \<union> set (map fact_key xs)) []"
  by (induction xs arbitrary: seen)
     (auto simp: unique_facts_loop_Cons insert_absorb simp del: unique_facts_loop.simps(2))

lemma collect_facts_loop_eq:
  "collect_facts_loop fs seen acc =
     (seen \<union> set (map fact_key fs), unique_facts_loop fs seen acc)"
  by (induction fs arbitrary: seen acc) (auto simp: Let_def)

lemma collect_traversals_loop_eq:
  "collect_traversals_loop ts seen acc =
     unique_facts_loop (concat (map facts ts)) seen acc"
proof (induction ts arbitrary: seen acc)
  case Nil
  show ?case by simp
next
  case (Cons t ts)
  show ?case
    using unique_facts_loop_acc [of "facts t @ concat (map facts ts)" seen acc]
      unique_facts_loop_acc [of "concat (map facts ts)" "seen \<union> set (map fact_key (facts t))"
         "unique_facts_loop (facts t) seen acc"]
      unique_facts_loop_acc [of "facts t" seen acc]
    by (simp add: collect_facts_loop_eq Cons.IH unique_facts_loop_append)
qed

lemma all_unique_facts_eq: "all_unique_facts ts = unique_facts (concat (map facts ts))"
  by (simp add: all_unique_facts_def unique_facts_def collect_traversals_loop_eq)

text \<open>
  C8. Removing duplicate facts by the key (source id, target id, relation label) is
  idempotent and keeps the order: the result of a second run on a result is that result;
  the first fact of a list is kept and the later facts with its key are dropped, and so
  on down the list, so each key keeps its first occurrence, in first-seen order; the
  result is a subsequence of the list, its keys are distinct and they are the keys of
  the list. The loops of \<open>build_context_node\<close> do the same on the facts of all the
  traversals, one after the other.
\<close>

theorem unique_facts_idempotent_order_preserving:
  "unique_facts (unique_facts fs) = unique_facts fs
   \<and> unique_facts [] = []
   \<and> unique_facts (f # fs)
       = f # unique_facts
               (filter (\<lambda>g. (source g, target g, relation g) \<noteq> (source f, target f, relation f))
                  fs)
   \<and> subseq (unique_facts fs) fs
   \<and> distinct (map (\<lambda>g. (source g, target g, relation g)) (unique_facts fs))
   \<and> set (map (\<lambda>g. (source g, target g, relation g)) (unique_facts fs))
       = set (map (\<lambda>g. (source g, target g, relation g)) fs)
   \<and> all_unique_facts ts = unique_facts (concat (map facts ts))
   \<and> all_unique_facts [\<lparr>start_node = s, visited_nodes = V, facts = all_unique_facts ts\<rparr>]
       = all_unique_facts ts"
proof -
  have k: "fact_key = (\<lambda>g. (source g, target g, relation g))"
    by (rule ext) (simp add: fact_key_def)
  have "all_unique_facts [\<lparr>start_node = s, visited_nodes = V, facts = all_unique_facts ts\<rparr>]
       = all_unique_facts ts"
    by (simp add: all_unique_facts_eq unique_facts_idem)
  moreover have "unique_facts [] = []" by (simp add: unique_facts_def)
  moreover have "subseq (unique_facts fs) fs"
    by (simp add: unique_facts_def unique_facts_loop_subseq)
  moreover have "distinct (map (\<lambda>g. (source g, target g, relation g)) (unique_facts fs))"
    using unique_facts_loop_distinct [of fs "{}"] by (simp add: unique_facts_def k)
  moreover have "set (map (\<lambda>g. (source g, target g, relation g)) (unique_facts fs))
       = set (map (\<lambda>g. (source g, target g, relation g)) fs)"
    using unique_facts_loop_keys [of fs "{}"] by (simp add: unique_facts_def k)
  moreover have "unique_facts (f # fs)
       = f # unique_facts
               (filter (\<lambda>g. (source g, target g, relation g) \<noteq> (source f, target f, relation f))
                  fs)"
    using unique_facts_Cons [of f fs] by (simp add: k)
  ultimately show ?thesis
    using unique_facts_idem [of fs] all_unique_facts_eq [of ts]
    by blast
qed

theorem unique_facts_idempotent_order_preserving_witness:
  "unique_facts [\<lparr>direction = ''outgoing'', source = ''p1'', source_name = None, target = ''c1'',
        target_name = None, relation = Some (PStr ''founded''), attributes = [''year'' \<mapsto> PInt 2003]\<rparr>, \<lparr>direction = ''outgoing'', source = ''p1'', source_name = None, target = ''c1'',
        target_name = None, relation = Some (PStr ''leads''), attributes = [''year'' \<mapsto> PInt 2008]\<rparr>, \<lparr>direction = ''outgoing'', source = ''p1'', source_name = None, target = ''c1'',
        target_name = None, relation = Some (PStr ''founded''), attributes = [''year'' \<mapsto> PInt 1999]\<rparr>, \<lparr>direction = ''outgoing'', source = ''p1'', source_name = None, target = ''c2'',
        target_name = None, relation = Some (PStr ''founded''), attributes = [''year'' \<mapsto> PInt 2002]\<rparr>, \<lparr>direction = ''outgoing'', source = ''p1'', source_name = None, target = ''c1'',
        target_name = None, relation = Some (PStr ''leads''), attributes = [''year'' \<mapsto> PInt 2008]\<rparr>] = [\<lparr>direction = ''outgoing'', source = ''p1'', source_name = None, target = ''c1'',
        target_name = None, relation = Some (PStr ''founded''), attributes = [''year'' \<mapsto> PInt 2003]\<rparr>, \<lparr>direction = ''outgoing'', source = ''p1'', source_name = None, target = ''c1'',
        target_name = None, relation = Some (PStr ''leads''), attributes = [''year'' \<mapsto> PInt 2008]\<rparr>, \<lparr>direction = ''outgoing'', source = ''p1'', source_name = None, target = ''c2'',
        target_name = None, relation = Some (PStr ''founded''), attributes = [''year'' \<mapsto> PInt 2002]\<rparr>]
   \<and> unique_facts [\<lparr>direction = ''outgoing'', source = ''p1'', source_name = None, target = ''c1'',
        target_name = None, relation = Some (PStr ''founded''), attributes = [''year'' \<mapsto> PInt 2003]\<rparr>, \<lparr>direction = ''outgoing'', source = ''p1'', source_name = None, target = ''c1'',
        target_name = None, relation = Some (PStr ''leads''), attributes = [''year'' \<mapsto> PInt 2008]\<rparr>, \<lparr>direction = ''outgoing'', source = ''p1'', source_name = None, target = ''c2'',
        target_name = None, relation = Some (PStr ''founded''), attributes = [''year'' \<mapsto> PInt 2002]\<rparr>] = [\<lparr>direction = ''outgoing'', source = ''p1'', source_name = None, target = ''c1'',
        target_name = None, relation = Some (PStr ''founded''), attributes = [''year'' \<mapsto> PInt 2003]\<rparr>, \<lparr>direction = ''outgoing'', source = ''p1'', source_name = None, target = ''c1'',
        target_name = None, relation = Some (PStr ''leads''), attributes = [''year'' \<mapsto> PInt 2008]\<rparr>, \<lparr>direction = ''outgoing'', source = ''p1'', source_name = None, target = ''c2'',
        target_name = None, relation = Some (PStr ''founded''), attributes = [''year'' \<mapsto> PInt 2002]\<rparr>]"
proof -
  have "unique_facts [\<lparr>direction = ''outgoing'', source = ''p1'', source_name = None, target = ''c1'',
        target_name = None, relation = Some (PStr ''founded''), attributes = [''year'' \<mapsto> PInt 2003]\<rparr>, \<lparr>direction = ''outgoing'', source = ''p1'', source_name = None, target = ''c1'',
        target_name = None, relation = Some (PStr ''leads''), attributes = [''year'' \<mapsto> PInt 2008]\<rparr>, \<lparr>direction = ''outgoing'', source = ''p1'', source_name = None, target = ''c1'',
        target_name = None, relation = Some (PStr ''founded''), attributes = [''year'' \<mapsto> PInt 1999]\<rparr>, \<lparr>direction = ''outgoing'', source = ''p1'', source_name = None, target = ''c2'',
        target_name = None, relation = Some (PStr ''founded''), attributes = [''year'' \<mapsto> PInt 2002]\<rparr>, \<lparr>direction = ''outgoing'', source = ''p1'', source_name = None, target = ''c1'',
        target_name = None, relation = Some (PStr ''leads''), attributes = [''year'' \<mapsto> PInt 2008]\<rparr>] = [\<lparr>direction = ''outgoing'', source = ''p1'', source_name = None, target = ''c1'',
        target_name = None, relation = Some (PStr ''founded''), attributes = [''year'' \<mapsto> PInt 2003]\<rparr>, \<lparr>direction = ''outgoing'', source = ''p1'', source_name = None, target = ''c1'',
        target_name = None, relation = Some (PStr ''leads''), attributes = [''year'' \<mapsto> PInt 2008]\<rparr>, \<lparr>direction = ''outgoing'', source = ''p1'', source_name = None, target = ''c2'',
        target_name = None, relation = Some (PStr ''founded''), attributes = [''year'' \<mapsto> PInt 2002]\<rparr>]
   \<and> unique_facts [\<lparr>direction = ''outgoing'', source = ''p1'', source_name = None, target = ''c1'',
        target_name = None, relation = Some (PStr ''founded''), attributes = [''year'' \<mapsto> PInt 2003]\<rparr>, \<lparr>direction = ''outgoing'', source = ''p1'', source_name = None, target = ''c1'',
        target_name = None, relation = Some (PStr ''leads''), attributes = [''year'' \<mapsto> PInt 2008]\<rparr>, \<lparr>direction = ''outgoing'', source = ''p1'', source_name = None, target = ''c2'',
        target_name = None, relation = Some (PStr ''founded''), attributes = [''year'' \<mapsto> PInt 2002]\<rparr>] = [\<lparr>direction = ''outgoing'', source = ''p1'', source_name = None, target = ''c1'',
        target_name = None, relation = Some (PStr ''founded''), attributes = [''year'' \<mapsto> PInt 2003]\<rparr>, \<lparr>direction = ''outgoing'', source = ''p1'', source_name = None, target = ''c1'',
        target_name = None, relation = Some (PStr ''leads''), attributes = [''year'' \<mapsto> PInt 2008]\<rparr>, \<lparr>direction = ''outgoing'', source = ''p1'', source_name = None, target = ''c2'',
        target_name = None, relation = Some (PStr ''founded''), attributes = [''year'' \<mapsto> PInt 2002]\<rparr>]"
    by (simp add: unique_facts_def fact_key_def)
  then show ?thesis
    using unique_facts_idempotent_order_preserving
    [of "[\<lparr>direction = ''outgoing'', source = ''p1'', source_name = None, target = ''c1'',
        target_name = None, relation = Some (PStr ''leads''), attributes = [''year'' \<mapsto> PInt 2008]\<rparr>, \<lparr>direction = ''outgoing'', source = ''p1'', source_name = None, target = ''c1'',
        target_name = None, relation = Some (PStr ''founded''), attributes = [''year'' \<mapsto> PInt 1999]\<rparr>, \<lparr>direction = ''outgoing'', source = ''p1'', source_name = None, target = ''c2'',
        target_name = None, relation = Some (PStr ''founded''), attributes = [''year'' \<mapsto> PInt 2002]\<rparr>, \<lparr>direction = ''outgoing'', source = ''p1'', source_name = None, target = ''c1'',
        target_name = None, relation = Some (PStr ''leads''), attributes = [''year'' \<mapsto> PInt 2008]\<rparr>]" "\<lparr>direction = ''outgoing'', source = ''p1'', source_name = None, target = ''c1'',
        target_name = None, relation = Some (PStr ''founded''), attributes = [''year'' \<mapsto> PInt 2003]\<rparr>" "[]" "''p1''" "{}"]
    unique_facts_idempotent_order_preserving [of "[\<lparr>direction = ''outgoing'', source = ''p1'', source_name = None, target = ''c2'',
        target_name = None, relation = Some (PStr ''founded''), attributes = [''year'' \<mapsto> PInt 2002]\<rparr>]" "\<lparr>direction = ''outgoing'', source = ''p1'', source_name = None, target = ''c1'',
        target_name = None, relation = Some (PStr ''leads''), attributes = [''year'' \<mapsto> PInt 2008]\<rparr>" "[]" "''p1''" "{}"]
    unique_facts_idempotent_order_preserving [of "[]" "\<lparr>direction = ''outgoing'', source = ''p1'', source_name = None, target = ''c2'',
        target_name = None, relation = Some (PStr ''founded''), attributes = [''year'' \<mapsto> PInt 2002]\<rparr>" "[]" "''p1''" "{}"]
    by simp
qed

section \<open>The relationships of a node\<close>

lemma set_fromkeys [simp]: "set (fromkeys xs) = set xs"
  by (induction xs) auto

lemma distinct_fromkeys [simp]: "distinct (fromkeys xs)"
  by (induction xs) auto

lemma mset_concat_groups:
  "distinct ks \<Longrightarrow>
   mset (concat (map (\<lambda>k. filter (\<lambda>x. P x \<and> g x = k) xs) ks))
     = mset (filter (\<lambda>x. P x \<and> g x \<in> set ks) xs)"
proof (induction ks)
  case Nil
  show ?case by simp
next
  case (Cons k ks)
  have "mset (filter (\<lambda>x. P x \<and> g x = k) xs) + mset (filter (\<lambda>x. P x \<and> g x \<in> set ks) xs)
      = mset (filter (\<lambda>x. P x \<and> (g x = k \<or> g x \<in> set ks)) xs)"
    using Cons.prems by (induction xs) auto
  with Cons show ?case by simp
qed

lemma mset_out_edge_list:
  "mset (out_edge_list G n) = mset (filter (\<lambda>(u, v, k, d). u = n) (edges G))"
proof -
  have "mset (out_edge_list G n)
      = mset (filter (\<lambda>e. (case e of (u, v, k, d) \<Rightarrow> u = n)
                           \<and> (case e of (u, v, k, d) \<Rightarrow> v) \<in> set (succ_keys G n)) (edges G))"
    unfolding out_edge_list_def
    using mset_concat_groups [of "succ_keys G n" "\<lambda>(u, v, k, d). u = n" "\<lambda>(u, v, k, d). v" "edges G"]
    by (simp add: succ_keys_def case_prod_unfold)
  also have "filter (\<lambda>e. (case e of (u, v, k, d) \<Rightarrow> u = n)
                           \<and> (case e of (u, v, k, d) \<Rightarrow> v) \<in> set (succ_keys G n)) (edges G)
      = filter (\<lambda>(u, v, k, d). u = n) (edges G)"
    by (rule filter_cong) (force simp: succ_keys_def image_iff)+
  finally show ?thesis .
qed

lemma mset_in_edge_list:
  "mset (in_edge_list G n) = mset (filter (\<lambda>(u, v, k, d). v = n) (edges G))"
proof -
  have "mset (in_edge_list G n)
      = mset (filter (\<lambda>e. (case e of (u, v, k, d) \<Rightarrow> v = n)
                           \<and> (case e of (u, v, k, d) \<Rightarrow> u) \<in> set (pred_keys G n)) (edges G))"
    unfolding in_edge_list_def
    using mset_concat_groups [of "pred_keys G n" "\<lambda>(u, v, k, d). v = n" "\<lambda>(u, v, k, d). u" "edges G"]
    by (simp add: pred_keys_def case_prod_unfold conj_commute)
  also have "filter (\<lambda>e. (case e of (u, v, k, d) \<Rightarrow> v = n)
                           \<and> (case e of (u, v, k, d) \<Rightarrow> u) \<in> set (pred_keys G n)) (edges G)
      = filter (\<lambda>(u, v, k, d). v = n) (edges G)"
    by (rule filter_cong) (force simp: pred_keys_def image_iff)+
  finally show ?thesis .
qed

lemma out_edges_node_eq:
  "out_edges_node G n = map (\<lambda>(u, v, k, d). (n, v, d)) (out_edge_list G n)"
  unfolding out_edges_node_def out_edge_list_def
  by (auto simp: map_concat comp_def intro!: arg_cong [where f = concat] map_cong)

lemma in_edges_node_eq:
  "in_edges_node G n = map (\<lambda>(u, v, k, d). (u, n, d)) (in_edge_list G n)"
  unfolding in_edges_node_def in_edge_list_def
  by (auto simp: map_concat comp_def intro!: arg_cong [where f = concat] map_cong)

lemma has_node_map_of: "has_node G n \<Longrightarrow> \<exists>d. map_of (node G) n = Some d"
  unfolding has_node_def by (metis map_of_eq_None_iff not_Some_eq set_map)

lemma nodes_getitem_has_node:
  "has_node G n \<Longrightarrow> \<exists>d. nodes_getitem G n = Inr d \<and> d ''name'' = node_name G n"
  using has_node_map_of [of G n] by (auto simp: nodes_getitem_def node_name_def)

lemma outgoing_loop_ok:
  assumes "has_node G n" and "\<forall>(u, v, k, d) \<in> set es. has_node G v"
  shows "outgoing_loop G n (map (\<lambda>(u, v, k, d). (n, v, d)) es) acc
           = Inr (acc @ map (outgoing_fact G n) es)"
  using assms(2)
proof (induction es arbitrary: acc)
  case Nil
  show ?case by simp
next
  case (Cons e es)
  obtain u v k d where e: "e = (u, v, k, d)" by (cases e)
  from Cons.prems e have v: "has_node G v" by simp
  obtain dn where dn: "nodes_getitem G n = Inr dn" "dn ''name'' = node_name G n"
    using nodes_getitem_has_node [OF assms(1)] by blast
  obtain dv where dv: "nodes_getitem G v = Inr dv" "dv ''name'' = node_name G v"
    using nodes_getitem_has_node [OF v] by blast
  show ?case using Cons e dn dv by (simp add: outgoing_fact_def)
qed

lemma incoming_loop_ok:
  assumes "has_node G n" and "\<forall>(u, v, k, d) \<in> set es. has_node G u"
  shows "incoming_loop G n (map (\<lambda>(u, v, k, d). (u, n, d)) es) acc
           = Inr (acc @ map (incoming_fact G n) es)"
  using assms(2)
proof (induction es arbitrary: acc)
  case Nil
  show ?case by simp
next
  case (Cons e es)
  obtain u v k d where e: "e = (u, v, k, d)" by (cases e)
  from Cons.prems e have u: "has_node G u" by simp
  obtain dn where dn: "nodes_getitem G n = Inr dn" "dn ''name'' = node_name G n"
    using nodes_getitem_has_node [OF assms(1)] by blast
  obtain du where du: "nodes_getitem G u = Inr du" "du ''name'' = node_name G u"
    using nodes_getitem_has_node [OF u] by blast
  show ?case using Cons e dn du by (simp add: incoming_fact_def)
qed

lemma set_out_edge_list: "set (out_edge_list G n) = {e \<in> set (edges G). fst e = n}"
  using mset_out_edge_list [of G n, THEN arg_cong, of set_mset] by (auto simp: case_prod_unfold)

lemma set_in_edge_list: "set (in_edge_list G n) = {e \<in> set (edges G). fst (snd e) = n}"
  using mset_in_edge_list [of G n, THEN arg_cong, of set_mset] by (auto simp: case_prod_unfold)

lemma get_node_relationships_ok:
  assumes "wf_graph G" "has_node G n"
  shows "get_node_relationships G n
     = Inr (map (outgoing_fact G n) (out_edge_list G n) @ map (incoming_fact G n) (in_edge_list G n))"
proof -
  have 1: "\<forall>(u, v, k, d) \<in> set (out_edge_list G n). has_node G v"
    using assms(1) by (auto simp: set_out_edge_list wf_graph_def)
  have 2: "\<forall>(u, v, k, d) \<in> set (in_edge_list G n). has_node G u"
    using assms(1) by (auto simp: set_in_edge_list wf_graph_def)
  have "out_edges G n = out_edges_node G n" "in_edges G n = in_edges_node G n"
    using assms(2) by (simp_all add: out_edges_def in_edges_def nbunch_iter_def)
  then show ?thesis
    unfolding get_node_relationships_def
    by (simp add: out_edges_node_eq in_edges_node_eq outgoing_loop_ok [OF assms(2) 1]
        incoming_loop_ok [OF assms(2) 2])
qed


text \<open>
  C5 (as amended). For every graph and every node of it, \<open>get_node_relationships\<close>
  raises nothing and returns first one fact tagged outgoing, with the node as source, for
  each edge that leaves the node, then one fact tagged incoming, with the node as target,
  for each edge that enters it: each such edge is there once, none is dropped. An edge
  from the node to itself is therefore there twice, once in each direction.
\<close>

theorem get_node_relationships_both_directions:
  assumes "wf_graph G" and "has_node G n"
  shows "get_node_relationships G n
           = Inr (map (outgoing_fact G n) (out_edge_list G n)
                  @ map (incoming_fact G n) (in_edge_list G n))
         \<and> mset (out_edge_list G n) = mset (filter (\<lambda>(u, v, k, d). u = n) (edges G))
         \<and> mset (in_edge_list G n) = mset (filter (\<lambda>(u, v, k, d). v = n) (edges G))"
  using get_node_relationships_ok [OF assms] mset_out_edge_list [of G n] mset_in_edge_list [of G n]
  by simp

theorem get_node_relationships_both_directions_witness:
  "wf_graph \<lparr>node = [(''p1'', [''name'' \<mapsto> ''Elon Musk'']), (''c1'', [''name'' \<mapsto> ''Tesla''])],
            edges = [(''p1'', ''c1'', PInt 0, [''relation'' \<mapsto> PStr ''founded'', ''year'' \<mapsto> PInt 2003]),
                     (''p1'', ''c1'', PInt 1, [''relation'' \<mapsto> PStr ''leads''])]\<rparr>
   \<and> has_node \<lparr>node = [(''p1'', [''name'' \<mapsto> ''Elon Musk'']), (''c1'', [''name'' \<mapsto> ''Tesla''])],
            edges = [(''p1'', ''c1'', PInt 0, [''relation'' \<mapsto> PStr ''founded'', ''year'' \<mapsto> PInt 2003]),
                     (''p1'', ''c1'', PInt 1, [''relation'' \<mapsto> PStr ''leads''])]\<rparr> ''c1''
   \<and> get_node_relationships
        \<lparr>node = [(''p1'', [''name'' \<mapsto> ''Elon Musk'']), (''c1'', [''name'' \<mapsto> ''Tesla''])],
         edges = [(''p1'', ''c1'', PInt 0, [''relation'' \<mapsto> PStr ''founded'', ''year'' \<mapsto> PInt 2003]),
                  (''p1'', ''c1'', PInt 1, [''relation'' \<mapsto> PStr ''leads''])]\<rparr> ''c1''
      = Inr [\<lparr>direction = ''incoming'', source = ''p1'', source_name = Some ''Elon Musk'',
              target = ''c1'', target_name = Some ''Tesla'', relation = Some (PStr ''founded''),
              attributes = [''year'' \<mapsto> PInt 2003]\<rparr>,
             \<lparr>direction = ''incoming'', source = ''p1'', source_name = Some ''Elon Musk'',
              target = ''c1'', target_name = Some ''Tesla'', relation = Some (PStr ''leads''),
              attributes = Map.empty\<rparr>]"
  using get_node_relationships_both_directions
    [of "\<lparr>node = [(''p1'', [''name'' \<mapsto> ''Elon Musk'']), (''c1'', [''name'' \<mapsto> ''Tesla''])],
            edges = [(''p1'', ''c1'', PInt 0, [''relation'' \<mapsto> PStr ''founded'', ''year'' \<mapsto> PInt 2003]),
                     (''p1'', ''c1'', PInt 1, [''relation'' \<mapsto> PStr ''leads''])]\<rparr>" "''c1''"]
  by (simp add: wf_graph_def has_node_def out_edge_list_def in_edge_list_def succ_keys_def
      pred_keys_def incoming_fact_def outgoing_fact_def node_name_def without_relation_def
      fun_upd_twist)

text \<open>
  C5 as stated fails on an edge from a node to itself: the graph has one edge at the
  node, and the call returns two facts for it.
\<close>

theorem get_node_relationships_self_loop_counterexample:
  "wf_graph \<lparr>node = [(''p1'', [''name'' \<mapsto> ''Elon Musk''])],
            edges = [(''p1'', ''p1'', PInt 0, [''relation'' \<mapsto> PStr ''advises''])]\<rparr>
   \<and> has_node \<lparr>node = [(''p1'', [''name'' \<mapsto> ''Elon Musk''])],
            edges = [(''p1'', ''p1'', PInt 0, [''relation'' \<mapsto> PStr ''advises''])]\<rparr> ''p1''
   \<and> length (filter (\<lambda>(u, v, k, d). u = ''p1'' \<or> v = ''p1'')
        (edges \<lparr>node = [(''p1'', [''name'' \<mapsto> ''Elon Musk''])],
            edges = [(''p1'', ''p1'', PInt 0, [''relation'' \<mapsto> PStr ''advises''])]\<rparr>)) = 1
   \<and> get_node_relationships
        \<lparr>node = [(''p1'', [''name'' \<mapsto> ''Elon Musk''])],
         edges = [(''p1'', ''p1'', PInt 0, [''relation'' \<mapsto> PStr ''advises''])]\<rparr> ''p1''
      = Inr [\<lparr>direction = ''outgoing'', source = ''p1'', source_name = Some ''Elon Musk'',
              target = ''p1'', target_name = Some ''Elon Musk'', relation = Some (PStr ''advises''),
              attributes = Map.empty\<rparr>,
             \<lparr>direction = ''incoming'', source = ''p1'', source_name = Some ''Elon Musk'',
              target = ''p1'', target_name = Some ''Elon Musk'', relation = Some (PStr ''advises''),
              attributes = Map.empty\<rparr>]"
  by (simp add: wf_graph_def has_node_def get_node_relationships_def out_edges_def in_edges_def
      nbunch_iter_def out_edges_node_def in_edges_node_def succ_keys_def pred_keys_def
      nodes_getitem_def without_relation_def)

section \<open>Traversal\<close>

lemma get_node_relationships_node_facts:
  "wf_graph G \<Longrightarrow> has_node G n \<Longrightarrow> get_node_relationships G n = Inr (node_facts G n)"
  by (simp add: get_node_relationships_ok node_facts_def)

lemma succ_keys_has_node:
  "wf_graph G \<Longrightarrow> m \<in> set (succ_keys G n) \<Longrightarrow> has_node G m"
  by (auto simp: succ_keys_def wf_graph_def)

lemma pred_keys_has_node:
  "wf_graph G \<Longrightarrow> m \<in> set (pred_keys G n) \<Longrightarrow> has_node G m"
  by (auto simp: pred_keys_def wf_graph_def)

lemma enqueue_neighbors_eq:
  "enqueue_neighbors ns visited d q = q @ map (\<lambda>n. (n, d + 1)) (filter (\<lambda>n. n \<notin> visited) ns)"
  by (induction ns arbitrary: q) auto

lemma traverse_loop_skip:
  "current_id \<in> visited \<or> current_depth > depth \<Longrightarrow>
   traverse_loop G depth ((current_id, current_depth) # to_visit) visited fs
     = traverse_loop G depth to_visit visited fs"
  by simp

lemma traverse_loop_expand:
  assumes "wf_graph G" "has_node G current_id" "current_id \<notin> visited" "current_depth \<le> depth"
  shows "traverse_loop G depth ((current_id, current_depth) # to_visit) visited fs
     = traverse_loop G depth
         (if current_depth < depth
          then to_visit @ map (\<lambda>n. (n, current_depth + 1))
                 (filter (\<lambda>n. n \<notin> insert current_id visited)
                    (succ_keys G current_id @ pred_keys G current_id))
          else to_visit)
         (insert current_id visited) (fs @ node_facts G current_id)"
  using assms
  by (simp add: get_node_relationships_node_facts successors_def predecessors_def
      enqueue_neighbors_eq)

lemma traverse_loop_ok:
  assumes wf: "wf_graph G"
  shows "\<forall>(m, d) \<in> set q. has_node G m \<Longrightarrow>
    \<exists>order. distinct order \<and> set order \<inter> visited = {} \<and> (\<forall>m \<in> set order. has_node G m)
      \<and> traverse_loop G depth q visited fs
          = Inr (visited \<union> set order, fs @ concat (map (node_facts G) order))"
  using wf
proof (induction G depth q visited fs rule: traverse_loop.induct)
  case (1 G depth visited fs)
  show ?case by (rule exI [of _ "[]"]) simp
next
  case (2 G depth current_id current_depth to_visit visited fs)
  have wf: "wf_graph G" by fact
  have cur: "has_node G current_id" and rest: "\<forall>(m, d) \<in> set to_visit. has_node G m"
    using "2.prems"(1) by auto
  show ?case
  proof (cases "current_id \<in> visited \<or> current_depth > depth")
    case True
    from "2.IH"(1) [OF True rest wf] show ?thesis
      using True by simp
  next
    case False
    then have nv: "current_id \<notin> visited" and le: "current_depth \<le> depth" by auto
    have rels: "get_node_relationships G current_id = Inr (node_facts G current_id)"
      by (rule get_node_relationships_node_facts [OF wf cur])
    show ?thesis
    proof (cases "current_depth < depth")
      case True
      let ?q = "enqueue_neighbors (succ_keys G current_id @ pred_keys G current_id)
                  (insert current_id visited) current_depth to_visit"
      have q: "\<forall>(m, d) \<in> set ?q. has_node G m"
        using rest succ_keys_has_node [OF wf] pred_keys_has_node [OF wf]
        by (auto simp: enqueue_neighbors_eq)
      have s: "successors G current_id = Inr (succ_keys G current_id)"
        and p: "predecessors G current_id = Inr (pred_keys G current_id)"
        using cur by (simp_all add: successors_def predecessors_def)
      from "2.IH"(2) [OF False rels True s p q wf]
      obtain order where o: "distinct order" "set order \<inter> insert current_id visited = {}"
        "\<forall>m \<in> set order. has_node G m"
        "traverse_loop G depth ?q (insert current_id visited) (fs @ node_facts G current_id)
          = Inr (insert current_id visited \<union> set order,
                 (fs @ node_facts G current_id) @ concat (map (node_facts G) order))"
        by blast
      show ?thesis
        apply (rule exI [of _ "current_id # order"])
        using o nv cur False rels True s p by auto
    next
      case nlt: False
      from "2.IH"(3) [OF False rels nlt rest wf]
      obtain order where o: "distinct order" "set order \<inter> insert current_id visited = {}"
        "\<forall>m \<in> set order. has_node G m"
        "traverse_loop G depth to_visit (insert current_id visited) (fs @ node_facts G current_id)
          = Inr (insert current_id visited \<union> set order,
                 (fs @ node_facts G current_id) @ concat (map (node_facts G) order))"
        by blast
      show ?thesis
        apply (rule exI [of _ "current_id # order"])
        using o nv cur False rels nlt by auto
    qed
  qed
qed

lemma traverse_loop_refines:
  "\<forall>(m, d) \<in> set q. d \<le> depth \<Longrightarrow>
   traverse_loop G depth q visited fs = expansion_rule_loop G depth q visited fs"
proof (induction G depth q visited fs rule: traverse_loop.induct)
  case (1 G depth visited fs)
  show ?case by simp
next
  case (2 G depth current_id current_depth to_visit visited fs)
  have le: "current_depth \<le> depth" and rest: "\<forall>(m, d) \<in> set to_visit. d \<le> depth"
    using "2.prems" by auto
  show ?case
  proof (cases "current_id \<in> visited")
    case True
    with "2.IH"(1) rest show ?thesis by simp
  next
    case False
    with le have c: "\<not> (current_id \<in> visited \<or> depth < current_depth)" by simp
    show ?thesis
    proof (cases "get_node_relationships G current_id")
      case (Inl e)
      with False le show ?thesis by simp
    next
      case (Inr rels)
      show ?thesis
      proof (cases "current_depth < depth")
        case nlt: False
        from "2.IH"(3) [OF c Inr nlt rest] show ?thesis
          using False le Inr nlt by simp
      next
        case True
        show ?thesis
        proof (cases "successors G current_id")
          case (Inl e)
          with False le Inr True show ?thesis by simp
        next
          case s: (Inr ss)
          show ?thesis
          proof (cases "predecessors G current_id")
            case (Inl e)
            with False le Inr True s show ?thesis by simp
          next
            case p: (Inr ps)
            have q: "\<forall>(m, d) \<in> set (enqueue_neighbors (ss @ ps) (insert current_id visited)
                        current_depth to_visit). d \<le> depth"
              using rest True by (auto simp: enqueue_neighbors_eq)
            from "2.IH"(2) [OF c Inr True s p q] show ?thesis
              using False le Inr True s p by (simp add: enqueue_neighbors_eq)
          qed
        qed
      qed
    qed
  qed
qed

lemma traverse_depth_zero:
  "traverse_from_node G start 0 =
     (case get_node_relationships G start of
        Inl e \<Rightarrow> Inl e
      | Inr rels \<Rightarrow> Inr \<lparr>start_node = start, visited_nodes = {start}, facts = unique_facts rels\<rparr>)"
  by (simp add: traverse_from_node_def split: sum.splits)















lemma traverse_loop_from_start:
  assumes wf: "wf_graph G" and st: "has_node G start"
  shows "\<exists>order. distinct order \<and> (\<forall>m \<in> set order. has_node G m)
     \<and> order = (if 0 \<le> depth then start # tl order else [])
     \<and> traverse_loop G depth [(start, 0)] {} []
         = Inr (set order, concat (map (node_facts G) order))"
proof (cases "0 \<le> depth")
  case False
  then have "traverse_loop G depth [(start, 0)] {} [] = Inr ({}, [])" by simp
  with False show ?thesis by (intro exI [of _ "[]"]) simp
next
  case True
  let ?q = "if 0 < depth
          then [] @ map (\<lambda>n. (n, 0 + 1))
                 (filter (\<lambda>n. n \<notin> insert start {})
                    (succ_keys G start @ pred_keys G start))
          else []"
  have e: "traverse_loop G depth [(start, 0)] {} []
      = traverse_loop G depth ?q (insert start {}) ([] @ node_facts G start)"
    using traverse_loop_expand [OF wf st, of "{}" 0 depth "[]" "[]"] True by simp
  have q: "\<forall>(m, d) \<in> set ?q. has_node G m"
    using succ_keys_has_node [OF wf] pred_keys_has_node [OF wf] by auto
  from traverse_loop_ok [OF wf q, of "insert start {}" depth "[] @ node_facts G start"]
  obtain order where o: "distinct order" "set order \<inter> insert start {} = {}"
    "\<forall>m \<in> set order. has_node G m"
    "traverse_loop G depth ?q (insert start {}) ([] @ node_facts G start)
       = Inr (insert start {} \<union> set order,
              ([] @ node_facts G start) @ concat (map (node_facts G) order))"
    by blast
  show ?thesis
    using o st True e by (intro exI [of _ "start # order"]) simp
qed

lemma filter_fromkeys: "filter P (fromkeys xs) = fromkeys (filter P xs)"
proof (induction xs)
  case Nil
  show ?case by simp
next
  case (Cons x xs)
  have "filter P (filter (\<lambda>y. y \<noteq> x) (fromkeys xs))
      = filter (\<lambda>y. y \<noteq> x) (filter P (fromkeys xs))"
    by (simp add: conj_commute)
  with Cons show ?case by (auto simp: filter_id_conv)
qed

lemma traverse_loop_at_limit:
  assumes wf: "wf_graph G"
  shows "\<forall>(m, d) \<in> set q. has_node G m \<and> d = depth \<Longrightarrow>
     traverse_loop G depth q V fs
       = Inr (V \<union> fst ` set q,
              fs @ concat (map (node_facts G) (fromkeys (filter (\<lambda>n. n \<notin> V) (map fst q)))))"
proof (induction q arbitrary: V fs)
  case Nil
  show ?case by simp
next
  case (Cons x q)
  obtain n d where x: "x = (n, d)" by (cases x)
  from Cons.prems x have n: "has_node G n" and d: "d = depth"
    and rest: "\<forall>(m, d) \<in> set q. has_node G m \<and> d = depth" by auto
  show ?case
  proof (cases "n \<in> V")
    case True
    then have "traverse_loop G depth (x # q) V fs = traverse_loop G depth q V fs"
      unfolding x by simp
    with Cons.IH [OF rest, of V fs] True show ?thesis
      unfolding x by (simp add: insert_absorb)
  next
    case False
    have "traverse_loop G depth (x # q) V fs
        = traverse_loop G depth q (insert n V) (fs @ node_facts G n)"
      unfolding x using traverse_loop_expand [OF wf n False, of d depth q fs] d by simp
    moreover have "fromkeys (filter (\<lambda>m. m \<notin> V) (map fst (x # q)))
        = n # fromkeys (filter (\<lambda>m. m \<notin> insert n V) (map fst q))"
      unfolding x using False
      by (simp add: filter_fromkeys conj_commute)
    ultimately show ?thesis
      using Cons.IH [OF rest, of "insert n V" "fs @ node_facts G n"]
      unfolding x by simp
  qed
qed

lemma set_succ_keys: "set (succ_keys G n) = {v. \<exists>k d. (n, v, k, d) \<in> set (edges G)}"
  by (force simp: succ_keys_def image_iff)

lemma set_pred_keys: "set (pred_keys G n) = {u. \<exists>k d. (u, n, k, d) \<in> set (edges G)}"
  by (force simp: pred_keys_def image_iff)

lemma traverse_depth_one:
  assumes wf: "wf_graph G" and st: "has_node G start"
  shows "traverse_from_node G start 1
     = Inr \<lparr>start_node = start,
            visited_nodes = insert start
              ({v. \<exists>k d. (start, v, k, d) \<in> set (edges G)}
               \<union> {u. \<exists>k d. (u, start, k, d) \<in> set (edges G)}),
            facts = unique_facts (concat (map (node_facts G)
              (start # fromkeys (filter (\<lambda>n. n \<noteq> start)
                                  (succ_keys G start @ pred_keys G start)))))\<rparr>"
proof -
  let ?ns = "filter (\<lambda>n. n \<noteq> start) (succ_keys G start @ pred_keys G start)"
  let ?q = "map (\<lambda>n. (n, 1::int)) ?ns"
  have e: "traverse_loop G 1 [(start, 0)] {} []
      = traverse_loop G 1 ?q {start} (node_facts G start)"
    using traverse_loop_expand [OF wf st, of "{}" 0 1 "[]" "[]"] by simp
  have q: "\<forall>(m, d) \<in> set ?q. has_node G m \<and> d = 1"
    using succ_keys_has_node [OF wf] pred_keys_has_node [OF wf] by auto
  have f: "filter (\<lambda>n. n \<notin> {start}) (map fst ?q) = ?ns"
    by (simp add: comp_def)
  have "traverse_loop G 1 [(start, 0)] {} []
      = Inr ({start} \<union> fst ` set ?q,
             node_facts G start @ concat (map (node_facts G) (fromkeys ?ns)))"
    unfolding e traverse_loop_at_limit [OF wf q, of "{start}" "node_facts G start"] f ..
  moreover have "{start} \<union> fst ` set ?q
      = insert start ({v. \<exists>k d. (start, v, k, d) \<in> set (edges G)}
               \<union> {u. \<exists>k d. (u, start, k, d) \<in> set (edges G)})"
  proof -
    have "map fst ?q = ?ns" by (simp add: comp_def)
    then have "fst ` set ?q = set ?ns" by (metis set_map)
    then show ?thesis
      unfolding set_succ_keys [symmetric] set_pred_keys [symmetric] by auto
  qed
  ultimately show ?thesis
    by (simp add: traverse_from_node_def)
qed

lemma traverse_from_node_refines:
  "0 \<le> depth \<Longrightarrow>
   traverse_from_node G start depth
     = (case expansion_rule_loop G depth [(start, 0)] {} [] of
          Inl e \<Rightarrow> Inl e
        | Inr (visited, fs) \<Rightarrow>
            Inr \<lparr>start_node = start, visited_nodes = visited, facts = unique_facts fs\<rparr>)"
  using traverse_loop_refines [of "[(start, 0)]" depth G "{}" "[]"]
  by (simp add: traverse_from_node_def)

text \<open>
  C3. For every graph, every start node of it and every depth (negative ones included),
  \<open>traverse_from_node\<close> returns, and raises nothing: the function is total, its loop
  ending because each expansion adds a node of the graph to \<open>visited\<close>. The nodes that
  the loop expands form a list without repetition, which begins with the start node when
  the depth is not negative and is empty otherwise: the visited set is the set of that
  list, and the list of facts that the loop collects, before the duplicates are removed,
  is made of the relationships of each node of the list, taken once and in that order.
\<close>

theorem traverse_terminates_no_revisit:
  assumes "wf_graph G" and "has_node G start"
  shows "\<exists>order. distinct order
     \<and> order = (if 0 \<le> depth then start # tl order else [])
     \<and> map (get_node_relationships G) order = map (\<lambda>n. Inr (node_facts G n)) order
     \<and> traverse_loop G depth [(start, 0)] {} []
         = Inr (set order, concat (map (node_facts G) order))
     \<and> traverse_from_node G start depth
         = Inr \<lparr>start_node = start, visited_nodes = set order,
                facts = unique_facts (concat (map (node_facts G) order))\<rparr>"
proof -
  from traverse_loop_from_start [OF assms, of depth]
  obtain order where o: "distinct order" "\<forall>m \<in> set order. has_node G m"
    "order = (if 0 \<le> depth then start # tl order else [])"
    "traverse_loop G depth [(start, 0)] {} []
         = Inr (set order, concat (map (node_facts G) order))"
    by blast
  have r: "map (get_node_relationships G) order = map (\<lambda>n. Inr (node_facts G n)) order"
    using o(2) get_node_relationships_node_facts [OF assms(1)] by simp
  have t: "traverse_from_node G start depth
         = Inr \<lparr>start_node = start, visited_nodes = set order,
                facts = unique_facts (concat (map (node_facts G) order))\<rparr>"
    using o(4) by (simp add: traverse_from_node_def)
  from o(1) o(3) r o(4) t show ?thesis by blast
qed



text \<open>
  C4. With depth 0, \<open>traverse_from_node\<close> returns what \<open>get_node_relationships\<close>
  returns for the start node, with the duplicates removed, and the visited set is the
  start node alone; for a node of the graph these are the facts of its edges in both
  directions. For a depth that is not negative, the loop of \<open>traverse_from_node\<close>, and
  so \<open>traverse_from_node\<close> itself, computes what the expansion rule of the
  specification computes: the test \<open>current_depth > depth\<close> that precedes the
  contribution never holds. With depth 1, the depth that the pipeline uses, the visited
  set is the start node with the targets of the edges that leave it and the sources of
  the edges that enter it, and the facts are those of the start node followed by those of
  these neighbours, in the order in which they were enqueued, with the duplicates removed.
\<close>

theorem traverse_depth_zero_and_expansion_rule:
  "traverse_from_node G start 0 =
     (case get_node_relationships G start of
        Inl e \<Rightarrow> Inl e
      | Inr rels \<Rightarrow> Inr \<lparr>start_node = start, visited_nodes = {start}, facts = unique_facts rels\<rparr>)
   \<and> (wf_graph G \<and> has_node G start \<longrightarrow>
        traverse_from_node G start 0
          = Inr \<lparr>start_node = start, visited_nodes = {start},
                 facts = unique_facts (node_facts G start)\<rparr>)
   \<and> (0 \<le> depth \<longrightarrow>
        traverse_loop G depth [(start, 0)] {} [] = expansion_rule_loop G depth [(start, 0)] {} [])
   \<and> (0 \<le> depth \<longrightarrow>
        traverse_from_node G start depth
          = (case expansion_rule_loop G depth [(start, 0)] {} [] of
               Inl e \<Rightarrow> Inl e
             | Inr (visited, fs) \<Rightarrow>
                 Inr \<lparr>start_node = start, visited_nodes = visited, facts = unique_facts fs\<rparr>))
   \<and> (wf_graph G \<and> has_node G start \<longrightarrow>
        traverse_from_node G start 1
          = Inr \<lparr>start_node = start,
                 visited_nodes = insert start
                   ({v. \<exists>k d. (start, v, k, d) \<in> set (edges G)}
                    \<union> {u. \<exists>k d. (u, start, k, d) \<in> set (edges G)}),
                 facts = unique_facts (concat (map (node_facts G)
                   (start # fromkeys (filter (\<lambda>n. n \<noteq> start)
                                       (succ_keys G start @ pred_keys G start)))))\<rparr>)"
proof (intro conjI impI)
  show "traverse_from_node G start 0 =
     (case get_node_relationships G start of
        Inl e \<Rightarrow> Inl e
      | Inr rels \<Rightarrow> Inr \<lparr>start_node = start, visited_nodes = {start}, facts = unique_facts rels\<rparr>)"
    by (rule traverse_depth_zero)
next
  assume "wf_graph G \<and> has_node G start"
  then show "traverse_from_node G start 0
          = Inr \<lparr>start_node = start, visited_nodes = {start},
                 facts = unique_facts (node_facts G start)\<rparr>"
    using traverse_depth_zero [of G start] get_node_relationships_node_facts [of G start]
    by simp
next
  assume "0 \<le> depth"
  then show "traverse_loop G depth [(start, 0)] {} []
      = expansion_rule_loop G depth [(start, 0)] {} []"
    by (intro traverse_loop_refines) simp
next
  assume "0 \<le> depth"
  then show "traverse_from_node G start depth
          = (case expansion_rule_loop G depth [(start, 0)] {} [] of
               Inl e \<Rightarrow> Inl e
             | Inr (visited, fs) \<Rightarrow>
                 Inr \<lparr>start_node = start, visited_nodes = visited, facts = unique_facts fs\<rparr>)"
    by (rule traverse_from_node_refines)
next
  assume "wf_graph G \<and> has_node G start"
  then show "traverse_from_node G start 1
          = Inr \<lparr>start_node = start,
                 visited_nodes = insert start
                   ({v. \<exists>k d. (start, v, k, d) \<in> set (edges G)}
                    \<union> {u. \<exists>k d. (u, start, k, d) \<in> set (edges G)}),
                 facts = unique_facts (concat (map (node_facts G)
                   (start # fromkeys (filter (\<lambda>n. n \<noteq> start)
                                       (succ_keys G start @ pred_keys G start)))))\<rparr>"
    using traverse_depth_one [of G start] by simp
qed

lemma without_relation_simps:
  "without_relation Map.empty = Map.empty"
  "without_relation (m(''relation'' \<mapsto> v)) = without_relation m"
  "k \<noteq> ''relation'' \<Longrightarrow> without_relation (m(k \<mapsto> v)) = (without_relation m)(k \<mapsto> v)"
  by (auto simp: without_relation_def)

theorem traverse_depth_zero_and_expansion_rule_witness:
  "wf_graph \<lparr>node = [(''p1'', [''name'' \<mapsto> ''Elon Musk'']), (''c1'', [''name'' \<mapsto> ''Tesla''])],
       edges = [(''p1'', ''c1'', PInt 0, [''relation'' \<mapsto> PStr ''founded'', ''year'' \<mapsto> PInt 2003]),
                (''p1'', ''c1'', PInt 1, [''relation'' \<mapsto> PStr ''founded'', ''year'' \<mapsto> PInt 1999])]\<rparr>
   \<and> has_node \<lparr>node = [(''p1'', [''name'' \<mapsto> ''Elon Musk'']), (''c1'', [''name'' \<mapsto> ''Tesla''])],
       edges = [(''p1'', ''c1'', PInt 0, [''relation'' \<mapsto> PStr ''founded'', ''year'' \<mapsto> PInt 2003]),
                (''p1'', ''c1'', PInt 1, [''relation'' \<mapsto> PStr ''founded'', ''year'' \<mapsto> PInt 1999])]\<rparr> ''p1''
   \<and> (0::int) \<le> 1
   \<and> traverse_from_node \<lparr>node = [(''p1'', [''name'' \<mapsto> ''Elon Musk'']), (''c1'', [''name'' \<mapsto> ''Tesla''])],
       edges = [(''p1'', ''c1'', PInt 0, [''relation'' \<mapsto> PStr ''founded'', ''year'' \<mapsto> PInt 2003]),
                (''p1'', ''c1'', PInt 1, [''relation'' \<mapsto> PStr ''founded'', ''year'' \<mapsto> PInt 1999])]\<rparr> ''p1'' 0
       = Inr \<lparr>start_node = ''p1'', visited_nodes = {''p1''}, facts = [\<lparr>direction = ''outgoing'', source = ''p1'', source_name = Some ''Elon Musk'',
               target = ''c1'', target_name = Some ''Tesla'', relation = Some (PStr ''founded''),
               attributes = [''year'' \<mapsto> PInt 2003]\<rparr>]\<rparr>
   \<and> traverse_loop \<lparr>node = [(''p1'', [''name'' \<mapsto> ''Elon Musk'']), (''c1'', [''name'' \<mapsto> ''Tesla''])],
       edges = [(''p1'', ''c1'', PInt 0, [''relation'' \<mapsto> PStr ''founded'', ''year'' \<mapsto> PInt 2003]),
                (''p1'', ''c1'', PInt 1, [''relation'' \<mapsto> PStr ''founded'', ''year'' \<mapsto> PInt 1999])]\<rparr> 1 [(''p1'', 0)] {} []
       = expansion_rule_loop \<lparr>node = [(''p1'', [''name'' \<mapsto> ''Elon Musk'']), (''c1'', [''name'' \<mapsto> ''Tesla''])],
       edges = [(''p1'', ''c1'', PInt 0, [''relation'' \<mapsto> PStr ''founded'', ''year'' \<mapsto> PInt 2003]),
                (''p1'', ''c1'', PInt 1, [''relation'' \<mapsto> PStr ''founded'', ''year'' \<mapsto> PInt 1999])]\<rparr> 1 [(''p1'', 0)] {} []
   \<and> expansion_rule_loop \<lparr>node = [(''p1'', [''name'' \<mapsto> ''Elon Musk'']), (''c1'', [''name'' \<mapsto> ''Tesla''])],
       edges = [(''p1'', ''c1'', PInt 0, [''relation'' \<mapsto> PStr ''founded'', ''year'' \<mapsto> PInt 2003]),
                (''p1'', ''c1'', PInt 1, [''relation'' \<mapsto> PStr ''founded'', ''year'' \<mapsto> PInt 1999])]\<rparr> 1 [(''p1'', 0)] {} []
       = Inr ({''c1'', ''p1''}, [\<lparr>direction = ''outgoing'', source = ''p1'', source_name = Some ''Elon Musk'',
               target = ''c1'', target_name = Some ''Tesla'', relation = Some (PStr ''founded''),
               attributes = [''year'' \<mapsto> PInt 2003]\<rparr>, \<lparr>direction = ''outgoing'', source = ''p1'', source_name = Some ''Elon Musk'',
               target = ''c1'', target_name = Some ''Tesla'', relation = Some (PStr ''founded''),
               attributes = [''year'' \<mapsto> PInt 1999]\<rparr>, \<lparr>direction = ''incoming'', source = ''p1'', source_name = Some ''Elon Musk'',
               target = ''c1'', target_name = Some ''Tesla'', relation = Some (PStr ''founded''),
               attributes = [''year'' \<mapsto> PInt 2003]\<rparr>, \<lparr>direction = ''incoming'', source = ''p1'', source_name = Some ''Elon Musk'',
               target = ''c1'', target_name = Some ''Tesla'', relation = Some (PStr ''founded''),
               attributes = [''year'' \<mapsto> PInt 1999]\<rparr>])
   \<and> traverse_from_node \<lparr>node = [(''p1'', [''name'' \<mapsto> ''Elon Musk'']), (''c1'', [''name'' \<mapsto> ''Tesla''])],
       edges = [(''p1'', ''c1'', PInt 0, [''relation'' \<mapsto> PStr ''founded'', ''year'' \<mapsto> PInt 2003]),
                (''p1'', ''c1'', PInt 1, [''relation'' \<mapsto> PStr ''founded'', ''year'' \<mapsto> PInt 1999])]\<rparr> ''p1'' 1
       = Inr \<lparr>start_node = ''p1'', visited_nodes = {''c1'', ''p1''}, facts = [\<lparr>direction = ''outgoing'', source = ''p1'', source_name = Some ''Elon Musk'',
               target = ''c1'', target_name = Some ''Tesla'', relation = Some (PStr ''founded''),
               attributes = [''year'' \<mapsto> PInt 2003]\<rparr>]\<rparr>"
proof -
  have h1: "wf_graph \<lparr>node = [(''p1'', [''name'' \<mapsto> ''Elon Musk'']), (''c1'', [''name'' \<mapsto> ''Tesla''])],
       edges = [(''p1'', ''c1'', PInt 0, [''relation'' \<mapsto> PStr ''founded'', ''year'' \<mapsto> PInt 2003]),
                (''p1'', ''c1'', PInt 1, [''relation'' \<mapsto> PStr ''founded'', ''year'' \<mapsto> PInt 1999])]\<rparr>"
    by (simp add: wf_graph_def has_node_def traverse_from_node_def get_node_relationships_def
        out_edges_def in_edges_def nbunch_iter_def out_edges_node_def in_edges_node_def
        succ_keys_def pred_keys_def successors_def predecessors_def nodes_getitem_def
        unique_facts_def fact_key_def without_relation_simps)
  have h2: "has_node \<lparr>node = [(''p1'', [''name'' \<mapsto> ''Elon Musk'']), (''c1'', [''name'' \<mapsto> ''Tesla''])],
       edges = [(''p1'', ''c1'', PInt 0, [''relation'' \<mapsto> PStr ''founded'', ''year'' \<mapsto> PInt 2003]),
                (''p1'', ''c1'', PInt 1, [''relation'' \<mapsto> PStr ''founded'', ''year'' \<mapsto> PInt 1999])]\<rparr> ''p1''"
    by (simp add: wf_graph_def has_node_def traverse_from_node_def get_node_relationships_def
        out_edges_def in_edges_def nbunch_iter_def out_edges_node_def in_edges_node_def
        succ_keys_def pred_keys_def successors_def predecessors_def nodes_getitem_def
        unique_facts_def fact_key_def without_relation_simps)
  have h3: "(0::int) \<le> 1"
    by (simp add: wf_graph_def has_node_def traverse_from_node_def get_node_relationships_def
        out_edges_def in_edges_def nbunch_iter_def out_edges_node_def in_edges_node_def
        succ_keys_def pred_keys_def successors_def predecessors_def nodes_getitem_def
        unique_facts_def fact_key_def without_relation_simps)
  have h4: "traverse_from_node \<lparr>node = [(''p1'', [''name'' \<mapsto> ''Elon Musk'']), (''c1'', [''name'' \<mapsto> ''Tesla''])],
       edges = [(''p1'', ''c1'', PInt 0, [''relation'' \<mapsto> PStr ''founded'', ''year'' \<mapsto> PInt 2003]),
                (''p1'', ''c1'', PInt 1, [''relation'' \<mapsto> PStr ''founded'', ''year'' \<mapsto> PInt 1999])]\<rparr> ''p1'' 0
       = Inr \<lparr>start_node = ''p1'', visited_nodes = {''p1''}, facts = [\<lparr>direction = ''outgoing'', source = ''p1'', source_name = Some ''Elon Musk'',
               target = ''c1'', target_name = Some ''Tesla'', relation = Some (PStr ''founded''),
               attributes = [''year'' \<mapsto> PInt 2003]\<rparr>]\<rparr>"
    by (simp add: wf_graph_def has_node_def traverse_from_node_def get_node_relationships_def
        out_edges_def in_edges_def nbunch_iter_def out_edges_node_def in_edges_node_def
        succ_keys_def pred_keys_def successors_def predecessors_def nodes_getitem_def
        unique_facts_def fact_key_def without_relation_simps)
  have h5: "traverse_loop \<lparr>node = [(''p1'', [''name'' \<mapsto> ''Elon Musk'']), (''c1'', [''name'' \<mapsto> ''Tesla''])],
       edges = [(''p1'', ''c1'', PInt 0, [''relation'' \<mapsto> PStr ''founded'', ''year'' \<mapsto> PInt 2003]),
                (''p1'', ''c1'', PInt 1, [''relation'' \<mapsto> PStr ''founded'', ''year'' \<mapsto> PInt 1999])]\<rparr> 1 [(''p1'', 0)] {} []
       = expansion_rule_loop \<lparr>node = [(''p1'', [''name'' \<mapsto> ''Elon Musk'']), (''c1'', [''name'' \<mapsto> ''Tesla''])],
       edges = [(''p1'', ''c1'', PInt 0, [''relation'' \<mapsto> PStr ''founded'', ''year'' \<mapsto> PInt 2003]),
                (''p1'', ''c1'', PInt 1, [''relation'' \<mapsto> PStr ''founded'', ''year'' \<mapsto> PInt 1999])]\<rparr> 1 [(''p1'', 0)] {} []"
    using traverse_depth_zero_and_expansion_rule [of "\<lparr>node = [(''p1'', [''name'' \<mapsto> ''Elon Musk'']), (''c1'', [''name'' \<mapsto> ''Tesla''])],
       edges = [(''p1'', ''c1'', PInt 0, [''relation'' \<mapsto> PStr ''founded'', ''year'' \<mapsto> PInt 2003]),
                (''p1'', ''c1'', PInt 1, [''relation'' \<mapsto> PStr ''founded'', ''year'' \<mapsto> PInt 1999])]\<rparr>" "''p1''" 1,
        THEN conjunct2, THEN conjunct2, THEN conjunct1]
    by simp
  have h6: "expansion_rule_loop \<lparr>node = [(''p1'', [''name'' \<mapsto> ''Elon Musk'']), (''c1'', [''name'' \<mapsto> ''Tesla''])],
       edges = [(''p1'', ''c1'', PInt 0, [''relation'' \<mapsto> PStr ''founded'', ''year'' \<mapsto> PInt 2003]),
                (''p1'', ''c1'', PInt 1, [''relation'' \<mapsto> PStr ''founded'', ''year'' \<mapsto> PInt 1999])]\<rparr> 1 [(''p1'', 0)] {} []
       = Inr ({''c1'', ''p1''}, [\<lparr>direction = ''outgoing'', source = ''p1'', source_name = Some ''Elon Musk'',
               target = ''c1'', target_name = Some ''Tesla'', relation = Some (PStr ''founded''),
               attributes = [''year'' \<mapsto> PInt 2003]\<rparr>, \<lparr>direction = ''outgoing'', source = ''p1'', source_name = Some ''Elon Musk'',
               target = ''c1'', target_name = Some ''Tesla'', relation = Some (PStr ''founded''),
               attributes = [''year'' \<mapsto> PInt 1999]\<rparr>, \<lparr>direction = ''incoming'', source = ''p1'', source_name = Some ''Elon Musk'',
               target = ''c1'', target_name = Some ''Tesla'', relation = Some (PStr ''founded''),
               attributes = [''year'' \<mapsto> PInt 2003]\<rparr>, \<lparr>direction = ''incoming'', source = ''p1'', source_name = Some ''Elon Musk'',
               target = ''c1'', target_name = Some ''Tesla'', relation = Some (PStr ''founded''),
               attributes = [''year'' \<mapsto> PInt 1999]\<rparr>])"
    by (simp add: wf_graph_def has_node_def traverse_from_node_def get_node_relationships_def
        out_edges_def in_edges_def nbunch_iter_def out_edges_node_def in_edges_node_def
        succ_keys_def pred_keys_def successors_def predecessors_def nodes_getitem_def
        unique_facts_def fact_key_def without_relation_simps)
  have h7: "traverse_from_node \<lparr>node = [(''p1'', [''name'' \<mapsto> ''Elon Musk'']), (''c1'', [''name'' \<mapsto> ''Tesla''])],
       edges = [(''p1'', ''c1'', PInt 0, [''relation'' \<mapsto> PStr ''founded'', ''year'' \<mapsto> PInt 2003]),
                (''p1'', ''c1'', PInt 1, [''relation'' \<mapsto> PStr ''founded'', ''year'' \<mapsto> PInt 1999])]\<rparr> ''p1'' 1
       = Inr \<lparr>start_node = ''p1'', visited_nodes = {''c1'', ''p1''}, facts = [\<lparr>direction = ''outgoing'', source = ''p1'', source_name = Some ''Elon Musk'',
               target = ''c1'', target_name = Some ''Tesla'', relation = Some (PStr ''founded''),
               attributes = [''year'' \<mapsto> PInt 2003]\<rparr>]\<rparr>"
    by (simp add: wf_graph_def has_node_def traverse_from_node_def get_node_relationships_def
        out_edges_def in_edges_def nbunch_iter_def out_edges_node_def in_edges_node_def
        succ_keys_def pred_keys_def successors_def predecessors_def nodes_getitem_def
        unique_facts_def fact_key_def without_relation_simps)
  show ?thesis
    using h1 h2 h3 h4 h5 h6 h7 by (intro conjI) assumption+
qed

theorem traverse_terminates_no_revisit_witness:
  "wf_graph \<lparr>node = [(''p1'', [''name'' \<mapsto> ''Elon Musk'']), (''c1'', [''name'' \<mapsto> ''Tesla'']),
               (''c2'', [''name'' \<mapsto> ''SpaceX''])],
       edges = [(''p1'', ''c1'', PInt 0, [''relation'' \<mapsto> PStr ''founded'']),
                (''c1'', ''c2'', PInt 0, [''relation'' \<mapsto> PStr ''partners_with'']),
                (''c2'', ''p1'', PInt 0, [''relation'' \<mapsto> PStr ''advised_by''])]\<rparr>
   \<and> has_node \<lparr>node = [(''p1'', [''name'' \<mapsto> ''Elon Musk'']), (''c1'', [''name'' \<mapsto> ''Tesla'']),
               (''c2'', [''name'' \<mapsto> ''SpaceX''])],
       edges = [(''p1'', ''c1'', PInt 0, [''relation'' \<mapsto> PStr ''founded'']),
                (''c1'', ''c2'', PInt 0, [''relation'' \<mapsto> PStr ''partners_with'']),
                (''c2'', ''p1'', PInt 0, [''relation'' \<mapsto> PStr ''advised_by''])]\<rparr> ''p1''
   \<and> traverse_loop \<lparr>node = [(''p1'', [''name'' \<mapsto> ''Elon Musk'']), (''c1'', [''name'' \<mapsto> ''Tesla'']),
               (''c2'', [''name'' \<mapsto> ''SpaceX''])],
       edges = [(''p1'', ''c1'', PInt 0, [''relation'' \<mapsto> PStr ''founded'']),
                (''c1'', ''c2'', PInt 0, [''relation'' \<mapsto> PStr ''partners_with'']),
                (''c2'', ''p1'', PInt 0, [''relation'' \<mapsto> PStr ''advised_by''])]\<rparr> 2 [(''p1'', 0)] {} []
       = Inr ({''c2'', ''c1'', ''p1''},
              [\<lparr>direction = ''outgoing'', source = ''p1'', source_name = Some ''Elon Musk'',
               target = ''c1'', target_name = Some ''Tesla'', relation = Some (PStr ''founded''),
               attributes = Map.empty\<rparr>,
               \<lparr>direction = ''incoming'', source = ''c2'', source_name = Some ''SpaceX'',
               target = ''p1'', target_name = Some ''Elon Musk'', relation = Some (PStr ''advised_by''),
               attributes = Map.empty\<rparr>,
               \<lparr>direction = ''outgoing'', source = ''c1'', source_name = Some ''Tesla'',
               target = ''c2'', target_name = Some ''SpaceX'', relation = Some (PStr ''partners_with''),
               attributes = Map.empty\<rparr>,
               \<lparr>direction = ''incoming'', source = ''p1'', source_name = Some ''Elon Musk'',
               target = ''c1'', target_name = Some ''Tesla'', relation = Some (PStr ''founded''),
               attributes = Map.empty\<rparr>,
               \<lparr>direction = ''outgoing'', source = ''c2'', source_name = Some ''SpaceX'',
               target = ''p1'', target_name = Some ''Elon Musk'', relation = Some (PStr ''advised_by''),
               attributes = Map.empty\<rparr>,
               \<lparr>direction = ''incoming'', source = ''c1'', source_name = Some ''Tesla'',
               target = ''c2'', target_name = Some ''SpaceX'', relation = Some (PStr ''partners_with''),
               attributes = Map.empty\<rparr>])
   \<and> traverse_from_node \<lparr>node = [(''p1'', [''name'' \<mapsto> ''Elon Musk'']), (''c1'', [''name'' \<mapsto> ''Tesla'']),
               (''c2'', [''name'' \<mapsto> ''SpaceX''])],
       edges = [(''p1'', ''c1'', PInt 0, [''relation'' \<mapsto> PStr ''founded'']),
                (''c1'', ''c2'', PInt 0, [''relation'' \<mapsto> PStr ''partners_with'']),
                (''c2'', ''p1'', PInt 0, [''relation'' \<mapsto> PStr ''advised_by''])]\<rparr> ''p1'' 2
       = Inr \<lparr>start_node = ''p1'', visited_nodes = {''c2'', ''c1'', ''p1''},
              facts = [\<lparr>direction = ''outgoing'', source = ''p1'', source_name = Some ''Elon Musk'',
               target = ''c1'', target_name = Some ''Tesla'', relation = Some (PStr ''founded''),
               attributes = Map.empty\<rparr>,
               \<lparr>direction = ''incoming'', source = ''c2'', source_name = Some ''SpaceX'',
               target = ''p1'', target_name = Some ''Elon Musk'', relation = Some (PStr ''advised_by''),
               attributes = Map.empty\<rparr>,
               \<lparr>direction = ''outgoing'', source = ''c1'', source_name = Some ''Tesla'',
               target = ''c2'', target_name = Some ''SpaceX'', relation = Some (PStr ''partners_with''),
               attributes = Map.empty\<rparr>]\<rparr>"
proof -
  have h1: "wf_graph \<lparr>node = [(''p1'', [''name'' \<mapsto> ''Elon Musk'']), (''c1'', [''name'' \<mapsto> ''Tesla'']),
               (''c2'', [''name'' \<mapsto> ''SpaceX''])],
       edges = [(''p1'', ''c1'', PInt 0, [''relation'' \<mapsto> PStr ''founded'']),
                (''c1'', ''c2'', PInt 0, [''relation'' \<mapsto> PStr ''partners_with'']),
                (''c2'', ''p1'', PInt 0, [''relation'' \<mapsto> PStr ''advised_by''])]\<rparr>"
    by (simp add: wf_graph_def has_node_def traverse_from_node_def get_node_relationships_def
        out_edges_def in_edges_def nbunch_iter_def out_edges_node_def in_edges_node_def
        succ_keys_def pred_keys_def successors_def predecessors_def nodes_getitem_def
        unique_facts_def fact_key_def without_relation_simps)
  have h2: "has_node \<lparr>node = [(''p1'', [''name'' \<mapsto> ''Elon Musk'']), (''c1'', [''name'' \<mapsto> ''Tesla'']),
               (''c2'', [''name'' \<mapsto> ''SpaceX''])],
       edges = [(''p1'', ''c1'', PInt 0, [''relation'' \<mapsto> PStr ''founded'']),
                (''c1'', ''c2'', PInt 0, [''relation'' \<mapsto> PStr ''partners_with'']),
                (''c2'', ''p1'', PInt 0, [''relation'' \<mapsto> PStr ''advised_by''])]\<rparr> ''p1''"
    by (simp add: wf_graph_def has_node_def traverse_from_node_def get_node_relationships_def
        out_edges_def in_edges_def nbunch_iter_def out_edges_node_def in_edges_node_def
        succ_keys_def pred_keys_def successors_def predecessors_def nodes_getitem_def
        unique_facts_def fact_key_def without_relation_simps)
  have h3: "traverse_loop \<lparr>node = [(''p1'', [''name'' \<mapsto> ''Elon Musk'']), (''c1'', [''name'' \<mapsto> ''Tesla'']),
               (''c2'', [''name'' \<mapsto> ''SpaceX''])],
       edges = [(''p1'', ''c1'', PInt 0, [''relation'' \<mapsto> PStr ''founded'']),
                (''c1'', ''c2'', PInt 0, [''relation'' \<mapsto> PStr ''partners_with'']),
                (''c2'', ''p1'', PInt 0, [''relation'' \<mapsto> PStr ''advised_by''])]\<rparr> 2 [(''p1'', 0)] {} []
       = Inr ({''c2'', ''c1'', ''p1''},
              [\<lparr>direction = ''outgoing'', source = ''p1'', source_name = Some ''Elon Musk'',
               target = ''c1'', target_name = Some ''Tesla'', relation = Some (PStr ''founded''),
               attributes = Map.empty\<rparr>,
               \<lparr>direction = ''incoming'', source = ''c2'', source_name = Some ''SpaceX'',
               target = ''p1'', target_name = Some ''Elon Musk'', relation = Some (PStr ''advised_by''),
               attributes = Map.empty\<rparr>,
               \<lparr>direction = ''outgoing'', source = ''c1'', source_name = Some ''Tesla'',
               target = ''c2'', target_name = Some ''SpaceX'', relation = Some (PStr ''partners_with''),
               attributes = Map.empty\<rparr>,
               \<lparr>direction = ''incoming'', source = ''p1'', source_name = Some ''Elon Musk'',
               target = ''c1'', target_name = Some ''Tesla'', relation = Some (PStr ''founded''),
               attributes = Map.empty\<rparr>,
               \<lparr>direction = ''outgoing'', source = ''c2'', source_name = Some ''SpaceX'',
               target = ''p1'', target_name = Some ''Elon Musk'', relation = Some (PStr ''advised_by''),
               attributes = Map.empty\<rparr>,
               \<lparr>direction = ''incoming'', source = ''c1'', source_name = Some ''Tesla'',
               target = ''c2'', target_name = Some ''SpaceX'', relation = Some (PStr ''partners_with''),
               attributes = Map.empty\<rparr>])"
    by (simp add: wf_graph_def has_node_def traverse_from_node_def get_node_relationships_def
        out_edges_def in_edges_def nbunch_iter_def out_edges_node_def in_edges_node_def
        succ_keys_def pred_keys_def successors_def predecessors_def nodes_getitem_def
        unique_facts_def fact_key_def without_relation_simps)
  have h4: "traverse_from_node \<lparr>node = [(''p1'', [''name'' \<mapsto> ''Elon Musk'']), (''c1'', [''name'' \<mapsto> ''Tesla'']),
               (''c2'', [''name'' \<mapsto> ''SpaceX''])],
       edges = [(''p1'', ''c1'', PInt 0, [''relation'' \<mapsto> PStr ''founded'']),
                (''c1'', ''c2'', PInt 0, [''relation'' \<mapsto> PStr ''partners_with'']),
                (''c2'', ''p1'', PInt 0, [''relation'' \<mapsto> PStr ''advised_by''])]\<rparr> ''p1'' 2
       = Inr \<lparr>start_node = ''p1'', visited_nodes = {''c2'', ''c1'', ''p1''},
              facts = [\<lparr>direction = ''outgoing'', source = ''p1'', source_name = Some ''Elon Musk'',
               target = ''c1'', target_name = Some ''Tesla'', relation = Some (PStr ''founded''),
               attributes = Map.empty\<rparr>,
               \<lparr>direction = ''incoming'', source = ''c2'', source_name = Some ''SpaceX'',
               target = ''p1'', target_name = Some ''Elon Musk'', relation = Some (PStr ''advised_by''),
               attributes = Map.empty\<rparr>,
               \<lparr>direction = ''outgoing'', source = ''c1'', source_name = Some ''Tesla'',
               target = ''c2'', target_name = Some ''SpaceX'', relation = Some (PStr ''partners_with''),
               attributes = Map.empty\<rparr>]\<rparr>"
    by (simp add: wf_graph_def has_node_def traverse_from_node_def get_node_relationships_def
        out_edges_def in_edges_def nbunch_iter_def out_edges_node_def in_edges_node_def
        succ_keys_def pred_keys_def successors_def predecessors_def nodes_getitem_def
        unique_facts_def fact_key_def without_relation_simps)
  from traverse_terminates_no_revisit [OF h1 h2, of 2]
  obtain order where "distinct order"
    "traverse_loop \<lparr>node = [(''p1'', [''name'' \<mapsto> ''Elon Musk'']), (''c1'', [''name'' \<mapsto> ''Tesla'']),
               (''c2'', [''name'' \<mapsto> ''SpaceX''])],
       edges = [(''p1'', ''c1'', PInt 0, [''relation'' \<mapsto> PStr ''founded'']),
                (''c1'', ''c2'', PInt 0, [''relation'' \<mapsto> PStr ''partners_with'']),
                (''c2'', ''p1'', PInt 0, [''relation'' \<mapsto> PStr ''advised_by''])]\<rparr> 2 [(''p1'', 0)] {} []
       = Inr (set order, concat (map (node_facts \<lparr>node = [(''p1'', [''name'' \<mapsto> ''Elon Musk'']), (''c1'', [''name'' \<mapsto> ''Tesla'']),
               (''c2'', [''name'' \<mapsto> ''SpaceX''])],
       edges = [(''p1'', ''c1'', PInt 0, [''relation'' \<mapsto> PStr ''founded'']),
                (''c1'', ''c2'', PInt 0, [''relation'' \<mapsto> PStr ''partners_with'']),
                (''c2'', ''p1'', PInt 0, [''relation'' \<mapsto> PStr ''advised_by''])]\<rparr>) order))"
    by blast
  with h1 h2 h3 h4 show ?thesis by (intro conjI) assumption+
qed


section \<open>Building the graph\<close>

lemma map_fst_update:
  "map fst (map (\<lambda>(m, d). if m = n then (m, f d) else (m, d)) xs) = map fst xs"
  by (induction xs) auto

lemma has_node_add_node: "has_node (add_node G n a) m = (m = n \<or> has_node G m)"
  unfolding add_node_def has_node_def
  by (auto simp: map_fst_update simp del: set_map map_map)

lemma edges_add_node: "edges (add_node G n a) = edges G"
  by (simp add: add_node_def)

lemma has_node_add_edge: "has_node (add_edge G u v key a) m = (m = u \<or> m = v \<or> has_node G m)"
  by (auto simp: add_edge_def has_node_def Let_def)

lemma edges_add_edge_endpoints:
  "(\<lambda>(a, b, k, d). (a, b)) ` set (edges (add_edge G u v key attr))
     \<subseteq> insert (u, v) ((\<lambda>(a, b, k, d). (a, b)) ` set (edges G))"
  by (auto simp: add_edge_def Let_def image_iff split: if_splits)

lemma wf_graph_add_node: "wf_graph G \<Longrightarrow> wf_graph (add_node G n a)"
  by (auto simp: wf_graph_def has_node_add_node edges_add_node)

lemma wf_graph_add_edge:
  assumes "wf_graph G"
  shows "wf_graph (add_edge G u v key attr)"
  unfolding wf_graph_def
proof (clarify)
  fix a b k d
  assume "(a, b, k, d) \<in> set (edges (add_edge G u v key attr))"
  then have "(a, b) \<in> (\<lambda>(a, b, k, d). (a, b)) ` set (edges (add_edge G u v key attr))"
    by force
  with edges_add_edge_endpoints [of G u v key attr]
  have "(a, b) = (u, v) \<or> (a, b) \<in> (\<lambda>(a, b, k, d). (a, b)) ` set (edges G)" by auto
  then show "has_node (add_edge G u v key attr) a \<and> has_node (add_edge G u v key attr) b"
    using assms by (auto simp: has_node_add_edge wf_graph_def)
qed

lemma add_nodes_loop_succeeds:
  "(\<exists>G'. add_nodes_loop G ps = Inr G')
     = (\<forall>p \<in> set ps. p ''id'' \<noteq> None \<and> p ''self'' = None \<and> p ''node_for_adding'' = None)"
  by (induction ps arbitrary: G) (auto split: option.splits)

lemma add_edges_loop_succeeds:
  "(\<exists>G'. add_edges_loop G rs = Inr G')
     = (\<forall>(s, t, r, a) \<in> set rs.
          a ''relation'' = None \<and> a ''self'' = None
          \<and> a ''u_for_edge'' = None \<and> a ''v_for_edge'' = None)"
proof (induction rs arbitrary: G)
  case Nil
  show ?case by simp
next
  case (Cons x rs)
  obtain s t r a where x: "x = (s, t, r, a)" by (cases x)
  show ?case
  proof (cases "a ''relation'' = None \<and> a ''self'' = None
                \<and> a ''u_for_edge'' = None \<and> a ''v_for_edge'' = None")
    case True
    then show ?thesis unfolding x using Cons.IH by simp
  next
    case False
    then show ?thesis unfolding x by auto
  qed
qed

lemma add_nodes_loop_props:
  "add_nodes_loop G ps = Inr G' \<Longrightarrow>
     edges G' = edges G \<and> (\<forall>m. has_node G' m = (has_node G m \<or> m \<in> seed_ids ps))"
proof (induction ps arbitrary: G)
  case Nil
  then show ?case by (simp add: seed_ids_def map_filter_simps)
next
  case (Cons p ps)
  then obtain i where i: "p ''id'' = Some i" and nf: "p ''node_for_adding'' = None"
    and rest: "add_nodes_loop (add_node G i p) ps = Inr G'"
    by (auto split: option.splits if_splits)
  from Cons.IH [OF rest] show ?case
    using i by (auto simp: has_node_add_node edges_add_node seed_ids_def map_filter_simps)
qed

lemma add_edges_loop_props:
  "add_edges_loop G rs = Inr G' \<Longrightarrow> wf_graph G \<Longrightarrow>
     wf_graph G' \<and> (\<forall>m. has_node G m \<longrightarrow> has_node G' m)
     \<and> (\<forall>(s, t, r, a) \<in> set rs. has_node G' s \<and> has_node G' t)
     \<and> (\<exists>extra. node G' = node G @ extra \<and> (\<forall>(n, d) \<in> set extra. d = Map.empty))"
proof (induction rs arbitrary: G)
  case Nil
  then show ?case by simp
next
  case (Cons x rs)
  obtain s t r a where x: "x = (s, t, r, a)" by (cases x)
  let ?G1 = "add_edge G s t (a ''key'') ((a(''key'' := None))(''relation'' \<mapsto> PStr r))"
  from Cons.prems(1) x have rest: "add_edges_loop ?G1 rs = Inr G'"
    by (auto split: if_splits)
  have wf1: "wf_graph ?G1" by (rule wf_graph_add_edge [OF Cons.prems(2)])
  have n1: "\<exists>extra. node ?G1 = node G @ extra \<and> (\<forall>(n, d) \<in> set extra. d = Map.empty)"
    by (auto simp: add_edge_def Let_def)
  from Cons.IH [OF rest wf1] n1 show ?case
    unfolding x by (auto simp: has_node_add_edge) 
qed

lemma map_of_append_extra:
  assumes "n \<notin> fst ` set xs" "n \<in> fst ` set extra" "\<forall>(m, d) \<in> set extra. d = Map.empty"
  shows "map_of (xs @ extra) n = Some Map.empty"
proof -
  from assms(2) obtain d where "map_of extra n = Some d"
    by (metis map_of_eq_None_iff not_Some_eq)
  moreover from this have "(n, d) \<in> set extra" by (rule map_of_SomeD)
  ultimately have "map_of extra n = Some Map.empty" using assms(3) by auto
  moreover have "map_of xs n = None" using assms(1) by (simp add: map_of_eq_None_iff)
  ultimately show ?thesis by (simp add: map_add_def)
qed

lemma build_graph_Inr:
  "(build_graph people companies relationships = Inr G)
     = (\<exists>G1 G2. add_nodes_loop \<lparr>node = [], edges = []\<rparr> people = Inr G1
            \<and> add_nodes_loop G1 companies = Inr G2
            \<and> add_edges_loop G2 relationships = Inr G)"
  by (auto simp: build_graph_def split: sum.splits)

lemma build_graph_succeeds:
  "(\<exists>G. build_graph people companies relationships = Inr G)
     = seeds_callable people companies relationships"
proof
  assume "\<exists>G. build_graph people companies relationships = Inr G"
  then obtain G G1 G2 where
    "add_nodes_loop \<lparr>node = [], edges = []\<rparr> people = Inr G1"
    "add_nodes_loop G1 companies = Inr G2" "add_edges_loop G2 relationships = Inr G"
    unfolding build_graph_Inr by blast
  then show "seeds_callable people companies relationships"
    using add_nodes_loop_succeeds [of "\<lparr>node = [], edges = []\<rparr>" people]
      add_nodes_loop_succeeds [of G1 companies] add_edges_loop_succeeds [of G2 relationships]
    unfolding seeds_callable_def by auto
next
  assume c: "seeds_callable people companies relationships"
  then obtain G1 where 1: "add_nodes_loop \<lparr>node = [], edges = []\<rparr> people = Inr G1"
    using add_nodes_loop_succeeds [of "\<lparr>node = [], edges = []\<rparr>" people]
    unfolding seeds_callable_def by auto
  from c obtain G2 where 2: "add_nodes_loop G1 companies = Inr G2"
    using add_nodes_loop_succeeds [of G1 companies] unfolding seeds_callable_def by auto
  from c obtain G where 3: "add_edges_loop G2 relationships = Inr G"
    using add_edges_loop_succeeds [of G2 relationships] unfolding seeds_callable_def by auto
  from 1 2 3 show "\<exists>G. build_graph people companies relationships = Inr G"
    unfolding build_graph_Inr by blast
qed

lemma seed_ids_append: "seed_ids (ps @ qs) = seed_ids ps \<union> seed_ids qs"
  by (auto simp: seed_ids_def map_filter_def)

lemma add_edges_loop_nodes:
  "add_edges_loop G rs = Inr G' \<Longrightarrow>
     has_node G' m = (has_node G m \<or> (\<exists>(s, t, r, a) \<in> set rs. m = s \<or> m = t))"
proof (induction rs arbitrary: G)
  case Nil
  then show ?case by simp
next
  case (Cons x rs)
  obtain s t r a where x: "x = (s, t, r, a)" by (cases x)
  let ?G1 = "add_edge G s t (a ''key'') ((a(''key'' := None))(''relation'' \<mapsto> PStr r))"
  from Cons.prems x have rest: "add_edges_loop ?G1 rs = Inr G'"
    by (auto split: if_splits)
  from Cons.IH [OF rest] show ?case
    unfolding x by (auto simp: has_node_add_edge)
qed

lemma build_graph_props:
  assumes "build_graph people companies relationships = Inr G"
  shows "wf_graph G"
    and "has_node G m = (m \<in> seed_ids (people @ companies)
                 \<or> (\<exists>(s, t, r, a) \<in> set relationships. m = s \<or> m = t))"
    and "has_node G m \<Longrightarrow> m \<notin> seed_ids (people @ companies)
           \<Longrightarrow> map_of (node G) m = Some Map.empty"
proof -
  from assms obtain G1 G2 where
    1: "add_nodes_loop \<lparr>node = [], edges = []\<rparr> people = Inr G1"
    and 2: "add_nodes_loop G1 companies = Inr G2"
    and 3: "add_edges_loop G2 relationships = Inr G"
    unfolding build_graph_Inr by blast
  from add_nodes_loop_props [OF 1] add_nodes_loop_props [OF 2]
  have e2: "edges G2 = []" and n2: "\<And>m. has_node G2 m = (m \<in> seed_ids (people @ companies))"
    by (auto simp: seed_ids_append has_node_def)
  have wf2: "wf_graph G2" using e2 by (simp add: wf_graph_def)
  from add_edges_loop_props [OF 3 wf2] show "wf_graph G" by simp
  show n: "has_node G m = (m \<in> seed_ids (people @ companies)
                 \<or> (\<exists>(s, t, r, a) \<in> set relationships. m = s \<or> m = t))"
    using add_edges_loop_nodes [OF 3, of m] n2 by simp
  show "map_of (node G) m = Some Map.empty"
    if "has_node G m" "m \<notin> seed_ids (people @ companies)"
  proof -
    from add_edges_loop_props [OF 3 wf2]
    obtain extra where ex: "node G = node G2 @ extra" "\<forall>(n, d) \<in> set extra. d = Map.empty"
      by blast
    have "m \<notin> fst ` set (node G2)" using that(2) n2 [of m] by (simp add: has_node_def)
    moreover have "m \<in> fst ` set extra"
      using that(1) ex(1) calculation by (auto simp: has_node_def)
    ultimately show ?thesis unfolding ex(1) using ex(2) by (rule map_of_append_extra)
  qed
qed

lemma new_edge_key_loop_fresh: "PInt (new_edge_key_loop keydict key) \<notin> set keydict"
proof (induction keydict key rule: new_edge_key_loop.induct)
  case (1 keydict key)
  show ?case
  proof (cases "PInt key \<in> set keydict")
    case True
    with 1 show ?thesis by (simp add: new_edge_key_loop.simps [of keydict key])
  next
    case False
    then show ?thesis by (simp add: new_edge_key_loop.simps [of keydict key])
  qed
qed

lemma add_edge_new_key:
  "\<exists>k. edges (add_edge G u v None attr) = edges G @ [(u, v, k, attr)]"
proof -
  let ?G1 = "if has_node G u then G else G\<lparr>node := node G @ [(u, Map.empty)]\<rparr>"
  let ?G2 = "if has_node ?G1 v then ?G1 else ?G1\<lparr>node := node ?G1 @ [(v, Map.empty)]\<rparr>"
  have e: "edges ?G2 = edges G" by simp
  have "PInt (new_edge_key ?G2 u v) \<notin> set (edge_keys ?G2 u v)"
    unfolding new_edge_key_def by (rule new_edge_key_loop_fresh)
  then have "edges (add_edge G u v None attr)
      = edges G @ [(u, v, PInt (new_edge_key ?G2 u v), attr)]"
    unfolding add_edge_def Let_def using e by simp
  then show ?thesis by blast
qed

lemma add_edge_endpoints:
  "(\<lambda>(a, b, k, d). (a, b)) ` set (edges (add_edge G u v key attr))
     = insert (u, v) ((\<lambda>(a, b, k, d). (a, b)) ` set (edges G))"
proof -
  let ?G1 = "if has_node G u then G else G\<lparr>node := node G @ [(u, Map.empty)]\<rparr>"
  let ?G2 = "if has_node ?G1 v then ?G1 else ?G1\<lparr>node := node ?G1 @ [(v, Map.empty)]\<rparr>"
  let ?k = "case key of None \<Rightarrow> PInt (new_edge_key ?G2 u v) | Some k' \<Rightarrow> k'"
  have e: "edges ?G2 = edges G" by simp
  show ?thesis
  proof (cases "?k \<in> set (edge_keys ?G2 u v)")
    case True
    then have uv: "(u, v) \<in> (\<lambda>(a, b, k, d). (a, b)) ` set (edges G)"
      unfolding edge_keys_def e by force
    have "edges (add_edge G u v key attr)
        = map (\<lambda>(a, b, k', d). if a = u \<and> b = v \<and> k' = ?k then (a, b, k', d ++ attr)
                               else (a, b, k', d)) (edges G)"
      unfolding add_edge_def Let_def using True e by simp
    then have "map (\<lambda>(a, b, k, d). (a, b)) (edges (add_edge G u v key attr))
        = map (\<lambda>(a, b, k, d). (a, b)) (edges G)"
      by (simp add: comp_def case_prod_unfold cong: map_cong)
    then have "(\<lambda>(a, b, k, d). (a, b)) ` set (edges (add_edge G u v key attr))
        = (\<lambda>(a, b, k, d). (a, b)) ` set (edges G)"
      by (metis set_map)
    with uv show ?thesis by (simp add: insert_absorb)
  next
    case False
    then have "edges (add_edge G u v key attr) = edges G @ [(u, v, ?k, attr)]"
      unfolding add_edge_def Let_def using e by simp
    then show ?thesis by simp
  qed
qed

lemma add_edges_loop_endpoints:
  "add_edges_loop G rs = Inr G' \<Longrightarrow>
     (\<lambda>(a, b, k, d). (a, b)) ` set (edges G')
       = (\<lambda>(a, b, k, d). (a, b)) ` set (edges G) \<union> (\<lambda>(s, t, r, a). (s, t)) ` set rs"
proof (induction rs arbitrary: G)
  case Nil
  then show ?case by simp
next
  case (Cons x rs)
  obtain s t r a where x: "x = (s, t, r, a)" by (cases x)
  let ?G1 = "add_edge G s t (a ''key'') ((a(''key'' := None))(''relation'' \<mapsto> PStr r))"
  from Cons.prems x have rest: "add_edges_loop ?G1 rs = Inr G'"
    by (auto split: if_splits)
  from Cons.IH [OF rest] show ?case
    unfolding x add_edge_endpoints by (simp add: case_prod_unfold)
qed

lemma add_edges_loop_edges:
  "add_edges_loop G rs = Inr G' \<Longrightarrow> \<forall>(s, t, r, a) \<in> set rs. a ''key'' = None \<Longrightarrow>
     map (\<lambda>(u, v, k, d). (u, v, d)) (edges G')
       = map (\<lambda>(u, v, k, d). (u, v, d)) (edges G)
         @ map (\<lambda>(s, t, r, a). (s, t, a(''relation'' \<mapsto> PStr r))) rs"
proof (induction rs arbitrary: G)
  case Nil
  then show ?case by simp
next
  case (Cons x rs)
  obtain s t r a where x: "x = (s, t, r, a)" by (cases x)
  from Cons.prems(2) x have nk: "a ''key'' = None"
    and rest_nk: "\<forall>(s, t, r, a) \<in> set rs. a ''key'' = None" by auto
  have attr: "(a(''key'' := None))(''relation'' \<mapsto> PStr r) = a(''relation'' \<mapsto> PStr r)"
    using nk by (simp add: fun_upd_idem)
  let ?G1 = "add_edge G s t None (a(''relation'' \<mapsto> PStr r))"
  from Cons.prems(1) x nk attr have rest: "add_edges_loop ?G1 rs = Inr G'"
    by (auto split: if_splits)
  obtain k where k: "edges ?G1 = edges G @ [(s, t, k, a(''relation'' \<mapsto> PStr r))]"
    using add_edge_new_key [of G s t "a(''relation'' \<mapsto> PStr r)"] by blast
  from Cons.IH [OF rest rest_nk] have "map (\<lambda>(u, v, k, d). (u, v, d)) (edges G')
       = map (\<lambda>(u, v, k, d). (u, v, d)) (edges ?G1)
         @ map (\<lambda>(s, t, r, a). (s, t, a(''relation'' \<mapsto> PStr r))) rs" .
  then show ?case
    unfolding x k by (simp del: fun_upd_apply)
qed

lemma build_graph_edges:
  assumes "build_graph people companies relationships = Inr G"
  shows "(\<lambda>(u, v, k, d). (u, v)) ` set (edges G) = (\<lambda>(s, t, r, a). (s, t)) ` set relationships"
    and "\<forall>(s, t, r, a) \<in> set relationships. a ''key'' = None \<Longrightarrow>
         map (\<lambda>(u, v, k, d). (u, v, d)) (edges G)
           = map (\<lambda>(s, t, r, a). (s, t, a(''relation'' \<mapsto> PStr r))) relationships"
proof -
  from assms obtain G1 G2 where
    1: "add_nodes_loop \<lparr>node = [], edges = []\<rparr> people = Inr G1"
    and 2: "add_nodes_loop G1 companies = Inr G2"
    and 3: "add_edges_loop G2 relationships = Inr G"
    unfolding build_graph_Inr by blast
  from add_nodes_loop_props [OF 1] add_nodes_loop_props [OF 2]
  have e2: "edges G2 = []" by simp
  show "(\<lambda>(u, v, k, d). (u, v)) ` set (edges G) = (\<lambda>(s, t, r, a). (s, t)) ` set relationships"
    using add_edges_loop_endpoints [OF 3] e2 by simp
  show "map (\<lambda>(u, v, k, d). (u, v, d)) (edges G)
           = map (\<lambda>(s, t, r, a). (s, t, a(''relation'' \<mapsto> PStr r))) relationships"
    if "\<forall>(s, t, r, a) \<in> set relationships. a ''key'' = None"
    using add_edges_loop_edges [OF 3 that] e2 by simp
qed

text \<open>
  C1 (as amended). Building the graph never fails because a relationship names a node id
  that no node seed has: \<open>add_edge\<close> makes the missing id a node with no attributes
  and adds the edge. Building succeeds exactly when every node seed has an id and no
  attribute name of a seed is the name of a parameter of the method that receives it
  (\<open>self\<close>, \<open>node_for_adding\<close>; \<open>self\<close>, \<open>u_for_edge\<close>, \<open>v_for_edge\<close>) or the name
  \<open>relation\<close>. The nodes of the graph built are the ids of the node seeds and the
  endpoints of the relationships, every edge has its endpoints among them, and a node
  that is not the id of a seed has the empty attribute mapping. The pairs of endpoints
  of the edges are those of the relationships; when no relationship has an attribute
  \<open>key\<close>, the edges are the relationships, one edge for each and in their order, each
  with the attributes of the relationship and its relation label.
\<close>

theorem build_graph_never_rejects_dangling_edges:
  "((\<exists>G. build_graph people companies relationships = Inr G)
      = seeds_callable people companies relationships)
   \<and> (build_graph people companies relationships = Inr G \<longrightarrow>
        wf_graph G
        \<and> (\<forall>m. has_node G m
              = (m \<in> seed_ids (people @ companies)
                 \<or> (\<exists>(s, t, r, a) \<in> set relationships. m = s \<or> m = t)))
        \<and> (\<forall>m. has_node G m \<and> m \<notin> seed_ids (people @ companies)
              \<longrightarrow> map_of (node G) m = Some Map.empty)
        \<and> (\<lambda>(u, v, k, d). (u, v)) ` set (edges G)
            = (\<lambda>(s, t, r, a). (s, t)) ` set relationships
        \<and> ((\<forall>(s, t, r, a) \<in> set relationships. a ''key'' = None) \<longrightarrow>
             map (\<lambda>(u, v, k, d). (u, v, d)) (edges G)
               = map (\<lambda>(s, t, r, a). (s, t, a(''relation'' \<mapsto> PStr r))) relationships))"
proof (intro conjI impI allI)
  show "(\<exists>G. build_graph people companies relationships = Inr G)
      = seeds_callable people companies relationships"
    by (rule build_graph_succeeds)
next
  assume h: "build_graph people companies relationships = Inr G"
  show "wf_graph G" by (rule build_graph_props(1) [OF h])
next
  fix m
  assume h: "build_graph people companies relationships = Inr G"
  show "has_node G m
              = (m \<in> seed_ids (people @ companies)
                 \<or> (\<exists>(s, t, r, a) \<in> set relationships. m = s \<or> m = t))"
    by (rule build_graph_props(2) [OF h])
next
  fix m
  assume h: "build_graph people companies relationships = Inr G"
    and m: "has_node G m \<and> m \<notin> seed_ids (people @ companies)"
  show "map_of (node G) m = Some Map.empty"
    using build_graph_props(3) [OF h, of m] m by simp
next
  assume h: "build_graph people companies relationships = Inr G"
  show "(\<lambda>(u, v, k, d). (u, v)) ` set (edges G)
            = (\<lambda>(s, t, r, a). (s, t)) ` set relationships"
    by (rule build_graph_edges(1) [OF h])
next
  assume h: "build_graph people companies relationships = Inr G"
    and k: "\<forall>(s, t, r, a) \<in> set relationships. a ''key'' = None"
  show "map (\<lambda>(u, v, k, d). (u, v, d)) (edges G)
               = map (\<lambda>(s, t, r, a). (s, t, a(''relation'' \<mapsto> PStr r))) relationships"
    by (rule build_graph_edges(2) [OF h k])
qed

lemma edge_keys_simps:
  "edge_keys \<lparr>node = ns, edges = []\<rparr> u v = []"
  "edge_keys \<lparr>node = ns, edges = (a, b, k, d) # es\<rparr> u v =
     (if a = u \<and> b = v then k # edge_keys \<lparr>node = ns, edges = es\<rparr> u v
      else edge_keys \<lparr>node = ns, edges = es\<rparr> u v)"
  by (simp_all add: edge_keys_def)

lemma new_edge_key_loop_simps:
  "PInt key \<notin> set keydict \<Longrightarrow> new_edge_key_loop keydict key = key"
  "PInt key \<in> set keydict \<Longrightarrow> new_edge_key_loop keydict key = new_edge_key_loop keydict (key + 1)"
  by (simp_all add: new_edge_key_loop.simps)

lemma map_del_simps:
  "Map.empty(k := None) = Map.empty"
  "k \<noteq> k' \<Longrightarrow> (m(k' \<mapsto> v))(k := None) = (m(k := None))(k' \<mapsto> v)"
  by auto

text \<open>
  C1 as stated fails: the relationship below names the id \<open>c9\<close>, which no node seed
  has, and the graph is built, with \<open>c9\<close> as a node without attributes.
\<close>

theorem build_graph_dangling_edge_counterexample:
  "build_graph
     [[''id'' \<mapsto> ''p1'', ''name'' \<mapsto> ''Elon Musk'', ''type'' \<mapsto> ''person'', ''role'' \<mapsto> ''CEO'']]
     []
     [(''p1'', ''c9'', ''founded'', [''year'' \<mapsto> PInt 2003])]
   = Inr \<lparr>node = [(''p1'', [''id'' \<mapsto> ''p1'', ''name'' \<mapsto> ''Elon Musk'', ''type'' \<mapsto> ''person'',
                             ''role'' \<mapsto> ''CEO'']),
                   (''c9'', Map.empty)],
           edges = [(''p1'', ''c9'', PInt 0, [''year'' \<mapsto> PInt 2003, ''relation'' \<mapsto> PStr ''founded''])]\<rparr>"
  by (simp add: build_graph_def add_node_def add_edge_def has_node_def new_edge_key_def
      edge_keys_simps map_del_simps new_edge_key_loop_simps Let_def)

theorem build_graph_never_rejects_dangling_edges_witness:
  "seeds_callable [[''id'' \<mapsto> ''p1'', ''name'' \<mapsto> ''Elon Musk'']] [[''id'' \<mapsto> ''c1'', ''name'' \<mapsto> ''Tesla'']] [(''p1'', ''c1'', ''founded'', [''year'' \<mapsto> PInt 2003]),
      (''p1'', ''c9'', ''leads'', [''role'' \<mapsto> PStr ''CEO''])]
   \<and> build_graph [[''id'' \<mapsto> ''p1'', ''name'' \<mapsto> ''Elon Musk'']] [[''id'' \<mapsto> ''c1'', ''name'' \<mapsto> ''Tesla'']] [(''p1'', ''c1'', ''founded'', [''year'' \<mapsto> PInt 2003]),
      (''p1'', ''c9'', ''leads'', [''role'' \<mapsto> PStr ''CEO''])] = Inr \<lparr>node = [(''p1'', [''id'' \<mapsto> ''p1'', ''name'' \<mapsto> ''Elon Musk'']),
              (''c1'', [''id'' \<mapsto> ''c1'', ''name'' \<mapsto> ''Tesla'']),
              (''c9'', Map.empty)],
      edges = [(''p1'', ''c1'', PInt 0, [''year'' \<mapsto> PInt 2003, ''relation'' \<mapsto> PStr ''founded'']),
               (''p1'', ''c9'', PInt 0, [''role'' \<mapsto> PStr ''CEO'', ''relation'' \<mapsto> PStr ''leads''])]\<rparr>
   \<and> wf_graph \<lparr>node = [(''p1'', [''id'' \<mapsto> ''p1'', ''name'' \<mapsto> ''Elon Musk'']),
              (''c1'', [''id'' \<mapsto> ''c1'', ''name'' \<mapsto> ''Tesla'']),
              (''c9'', Map.empty)],
      edges = [(''p1'', ''c1'', PInt 0, [''year'' \<mapsto> PInt 2003, ''relation'' \<mapsto> PStr ''founded'']),
               (''p1'', ''c9'', PInt 0, [''role'' \<mapsto> PStr ''CEO'', ''relation'' \<mapsto> PStr ''leads''])]\<rparr>
   \<and> has_node \<lparr>node = [(''p1'', [''id'' \<mapsto> ''p1'', ''name'' \<mapsto> ''Elon Musk'']),
              (''c1'', [''id'' \<mapsto> ''c1'', ''name'' \<mapsto> ''Tesla'']),
              (''c9'', Map.empty)],
      edges = [(''p1'', ''c1'', PInt 0, [''year'' \<mapsto> PInt 2003, ''relation'' \<mapsto> PStr ''founded'']),
               (''p1'', ''c9'', PInt 0, [''role'' \<mapsto> PStr ''CEO'', ''relation'' \<mapsto> PStr ''leads''])]\<rparr> ''c9''
   \<and> ''c9'' \<notin> seed_ids ([[''id'' \<mapsto> ''p1'', ''name'' \<mapsto> ''Elon Musk'']] @ [[''id'' \<mapsto> ''c1'', ''name'' \<mapsto> ''Tesla'']])
   \<and> map_of (node \<lparr>node = [(''p1'', [''id'' \<mapsto> ''p1'', ''name'' \<mapsto> ''Elon Musk'']),
              (''c1'', [''id'' \<mapsto> ''c1'', ''name'' \<mapsto> ''Tesla'']),
              (''c9'', Map.empty)],
      edges = [(''p1'', ''c1'', PInt 0, [''year'' \<mapsto> PInt 2003, ''relation'' \<mapsto> PStr ''founded'']),
               (''p1'', ''c9'', PInt 0, [''role'' \<mapsto> PStr ''CEO'', ''relation'' \<mapsto> PStr ''leads''])]\<rparr>) ''c9'' = Some Map.empty
   \<and> build_graph [[''id'' \<mapsto> ''p1'', ''self'' \<mapsto> ''x'']] [] [] = Inl TypeError"
proof -
  have ev: "build_graph [[''id'' \<mapsto> ''p1'', ''name'' \<mapsto> ''Elon Musk'']] [[''id'' \<mapsto> ''c1'', ''name'' \<mapsto> ''Tesla'']] [(''p1'', ''c1'', ''founded'', [''year'' \<mapsto> PInt 2003]),
      (''p1'', ''c9'', ''leads'', [''role'' \<mapsto> PStr ''CEO''])] = Inr \<lparr>node = [(''p1'', [''id'' \<mapsto> ''p1'', ''name'' \<mapsto> ''Elon Musk'']),
              (''c1'', [''id'' \<mapsto> ''c1'', ''name'' \<mapsto> ''Tesla'']),
              (''c9'', Map.empty)],
      edges = [(''p1'', ''c1'', PInt 0, [''year'' \<mapsto> PInt 2003, ''relation'' \<mapsto> PStr ''founded'']),
               (''p1'', ''c9'', PInt 0, [''role'' \<mapsto> PStr ''CEO'', ''relation'' \<mapsto> PStr ''leads''])]\<rparr>"
    by (simp add: build_graph_def add_node_def add_edge_def has_node_def new_edge_key_def
        edge_keys_simps map_del_simps new_edge_key_loop_simps Let_def)
  have sc: "seeds_callable [[''id'' \<mapsto> ''p1'', ''name'' \<mapsto> ''Elon Musk'']] [[''id'' \<mapsto> ''c1'', ''name'' \<mapsto> ''Tesla'']] [(''p1'', ''c1'', ''founded'', [''year'' \<mapsto> PInt 2003]),
      (''p1'', ''c9'', ''leads'', [''role'' \<mapsto> PStr ''CEO''])]"
    by (simp add: seeds_callable_def)
  have hn: "has_node \<lparr>node = [(''p1'', [''id'' \<mapsto> ''p1'', ''name'' \<mapsto> ''Elon Musk'']),
              (''c1'', [''id'' \<mapsto> ''c1'', ''name'' \<mapsto> ''Tesla'']),
              (''c9'', Map.empty)],
      edges = [(''p1'', ''c1'', PInt 0, [''year'' \<mapsto> PInt 2003, ''relation'' \<mapsto> PStr ''founded'']),
               (''p1'', ''c9'', PInt 0, [''role'' \<mapsto> PStr ''CEO'', ''relation'' \<mapsto> PStr ''leads''])]\<rparr> ''c9''"
    by (simp add: has_node_def)
  have ni: "''c9'' \<notin> seed_ids ([[''id'' \<mapsto> ''p1'', ''name'' \<mapsto> ''Elon Musk'']] @ [[''id'' \<mapsto> ''c1'', ''name'' \<mapsto> ''Tesla'']])"
    by (simp add: seed_ids_def map_filter_def)
  have te: "build_graph [[''id'' \<mapsto> ''p1'', ''self'' \<mapsto> ''x'']] [] [] = Inl TypeError"
    by (simp add: build_graph_def)
  note c = build_graph_never_rejects_dangling_edges
    [of "[[''id'' \<mapsto> ''p1'', ''name'' \<mapsto> ''Elon Musk'']]" "[[''id'' \<mapsto> ''c1'', ''name'' \<mapsto> ''Tesla'']]" "[(''p1'', ''c1'', ''founded'', [''year'' \<mapsto> PInt 2003]),
      (''p1'', ''c9'', ''leads'', [''role'' \<mapsto> PStr ''CEO''])]" "\<lparr>node = [(''p1'', [''id'' \<mapsto> ''p1'', ''name'' \<mapsto> ''Elon Musk'']),
              (''c1'', [''id'' \<mapsto> ''c1'', ''name'' \<mapsto> ''Tesla'']),
              (''c9'', Map.empty)],
      edges = [(''p1'', ''c1'', PInt 0, [''year'' \<mapsto> PInt 2003, ''relation'' \<mapsto> PStr ''founded'']),
               (''p1'', ''c9'', PInt 0, [''role'' \<mapsto> PStr ''CEO'', ''relation'' \<mapsto> PStr ''leads''])]\<rparr>", THEN conjunct2, THEN mp, OF ev]
  have wf: "wf_graph \<lparr>node = [(''p1'', [''id'' \<mapsto> ''p1'', ''name'' \<mapsto> ''Elon Musk'']),
              (''c1'', [''id'' \<mapsto> ''c1'', ''name'' \<mapsto> ''Tesla'']),
              (''c9'', Map.empty)],
      edges = [(''p1'', ''c1'', PInt 0, [''year'' \<mapsto> PInt 2003, ''relation'' \<mapsto> PStr ''founded'']),
               (''p1'', ''c9'', PInt 0, [''role'' \<mapsto> PStr ''CEO'', ''relation'' \<mapsto> PStr ''leads''])]\<rparr>"
    by (rule c [THEN conjunct1])
  have mo: "map_of (node \<lparr>node = [(''p1'', [''id'' \<mapsto> ''p1'', ''name'' \<mapsto> ''Elon Musk'']),
              (''c1'', [''id'' \<mapsto> ''c1'', ''name'' \<mapsto> ''Tesla'']),
              (''c9'', Map.empty)],
      edges = [(''p1'', ''c1'', PInt 0, [''year'' \<mapsto> PInt 2003, ''relation'' \<mapsto> PStr ''founded'']),
               (''p1'', ''c9'', PInt 0, [''role'' \<mapsto> PStr ''CEO'', ''relation'' \<mapsto> PStr ''leads''])]\<rparr>) ''c9'' = Some Map.empty"
    using c [THEN conjunct2, THEN conjunct2, THEN conjunct1] hn ni by blast
  show ?thesis
    using sc ev wf hn ni mo te by (intro conjI) assumption+
qed

section \<open>Entity detection\<close>









section \<open>The context and the answer\<close>

lemma join_contains_sep: "2 \<le> length xs \<Longrightarrow> set sep \<subseteq> set (join sep xs)"
proof -
  assume "2 \<le> length xs"
  then obtain x y ys where "xs = x # y # ys"
    by (cases xs; cases "tl xs") auto
  then show ?thesis by auto
qed

lemma build_context_sentinel: "(build_context fs entities = NO_INFORMATION) = (fs = [])"
proof (cases "fs = []")
  case True
  then show ?thesis by (simp add: build_context_def)
next
  case False
  let ?parts = "(if entities \<noteq> []
                then [''Information about: '' @ join '', '' (map name entities), []]
                else []) @
               [''Known facts:''] @
               map (\<lambda>f. ''- '' @ format_single_fact f) fs"
  have "2 \<le> length ?parts" using False by (cases fs) auto
  then have "set [CHR 0x0A] \<subseteq> set (join [CHR 0x0A] ?parts)" by (rule join_contains_sep)
  then have "CHR 0x0A \<in> set (build_context fs entities)"
    using False by (simp add: build_context_def Let_def)
  moreover have "CHR 0x0A \<notin> set NO_INFORMATION" by (simp add: NO_INFORMATION_def)
  ultimately have "build_context fs entities \<noteq> NO_INFORMATION" by metis
  with False show ?thesis by simp
qed

lemma sentinel_has_phrase: "substr ''No relevant information'' NO_INFORMATION"
  by (simp add: NO_INFORMATION_def)

lemma generate_skips_iff:
  "(\<forall>LLM_CLIENT. generate_answer_node LLM_CLIENT context question = COULD_NOT_FIND)
     = substr ''No relevant information'' context"
proof
  assume a: "\<forall>LLM_CLIENT. generate_answer_node LLM_CLIENT context question = COULD_NOT_FIND"
  show "substr ''No relevant information'' context"
  proof (rule ccontr)
    assume "\<not> substr ''No relevant information'' context"
    then have "generate_answer_node None context question \<noteq> COULD_NOT_FIND"
      by (simp add: generate_answer_node_def COULD_NOT_FIND_def)
    with a show False by blast
  qed
next
  assume "substr ''No relevant information'' context"
  then show "\<forall>LLM_CLIENT. generate_answer_node LLM_CLIENT context question = COULD_NOT_FIND"
    by (simp add: generate_answer_node_def)
qed

text \<open>
  C2 (as amended). \<open>build_context\<close> returns the sentinel exactly when its list of facts
  is empty. \<open>generate_answer_node\<close> gives the fixed answer whatever the client is, so
  without invoking it, exactly when the context contains the phrase
  \<open>No relevant information\<close> somewhere: the sentinel begins with the phrase, so the
  context of an empty list of facts always gives the fixed answer.
\<close>

theorem generate_skips_on_phrase:
  "(build_context fs entities = NO_INFORMATION) = (fs = [])
   \<and> (\<forall>LLM_CLIENT. generate_answer_node LLM_CLIENT context question = COULD_NOT_FIND)
       = sublist ''No relevant information'' context
   \<and> sublist ''No relevant information'' (build_context [] entities)
   \<and> (\<forall>LLM_CLIENT.
         generate_answer_node LLM_CLIENT (build_context [] entities) question = COULD_NOT_FIND)"
proof -
  have s: "substr ''No relevant information'' (build_context [] entities)"
    using sentinel_has_phrase by (simp add: build_context_def)
  then have "\<forall>LLM_CLIENT.
         generate_answer_node LLM_CLIENT (build_context [] entities) question = COULD_NOT_FIND"
    by (simp add: generate_skips_iff)
  with s show ?thesis
    using build_context_sentinel [of fs entities] generate_skips_iff [of "context" question]
    by (simp add: substr_sublist)
qed

lemma context_with_phrase:
  "build_context
     [\<lparr>direction = ''incoming'', source = ''c9'',
       source_name = Some ''No relevant information Ltd'', target = ''c3'',
       target_name = Some ''OpenAI'', relation = Some (PStr ''partners_with''),
       attributes = Map.empty\<rparr>] []
   = ''Known facts:'' @ [CHR 0x0A] @ ''- No relevant information Ltd partners with OpenAI''"
  by (simp add: build_context_def format_single_fact_def str_of_name_def str_of_relation_def)

text \<open>
  C2 as stated fails: the context below is rendered from one fact, it is not the
  sentinel, and \<open>generate_answer_node\<close> gives the fixed answer for it, without a client
  and with a client that would answer.
\<close>

theorem generate_skips_with_facts_counterexample:
  "build_context
     [\<lparr>direction = ''incoming'', source = ''c9'',
       source_name = Some ''No relevant information Ltd'', target = ''c3'',
       target_name = Some ''OpenAI'', relation = Some (PStr ''partners_with''),
       attributes = Map.empty\<rparr>] []
     \<noteq> NO_INFORMATION
   \<and> generate_answer_node None
       (build_context
          [\<lparr>direction = ''incoming'', source = ''c9'',
            source_name = Some ''No relevant information Ltd'', target = ''c3'',
            target_name = Some ''OpenAI'', relation = Some (PStr ''partners_with''),
            attributes = Map.empty\<rparr>] [])
       ''Who partners with OpenAI?''
     = COULD_NOT_FIND
   \<and> generate_answer_node (Some (\<lambda>prompt. Inr ''A generated answer.''))
       (build_context
          [\<lparr>direction = ''incoming'', source = ''c9'',
            source_name = Some ''No relevant information Ltd'', target = ''c3'',
            target_name = Some ''OpenAI'', relation = Some (PStr ''partners_with''),
            attributes = Map.empty\<rparr>] [])
       ''Who partners with OpenAI?''
     = COULD_NOT_FIND"
  unfolding context_with_phrase
  by (simp add: generate_answer_node_def NO_INFORMATION_def)

end
